theory Spec2Isabelle
  imports Main "HOL-Library.Sublist" "HOL-Library.AList"
begin

section \<open>JavaScript values and strings\<close>

text \<open>
  The TypeScript sources work on parsed JSON (token headers and payloads, offer payloads).
  A value of the language is one of the following.  Strings are lists of bytes (the UTF-8
  form of the text); numbers are the integers, which is what the checks of the sources
  (\<open>typeof\<close>, truthiness) can tell apart from zero.  An object is the list of its
  properties in insertion order; a property that holds \<open>undefined\<close> is not stored:
  reading it, optional chaining over it and \<open>JSON.stringify\<close> all treat it as absent.
\<close>

datatype jsval =
    Undefined
  | Null
  | Bool bool
  | Num int
  | Str string
  | Arr "jsval list"
  | Obj "(string \<times> jsval) list"

text \<open>What \<open>if (v)\<close>, \<open>!v\<close> and \<open>v && ...\<close> test.\<close>

fun truthy :: "jsval \<Rightarrow> bool" where
  "truthy Undefined = False"
| "truthy Null = False"
| "truthy (Bool b) = b"
| "truthy (Num n) = (n \<noteq> 0)"
| "truthy (Str s) = (s \<noteq> [])"
| "truthy (Arr xs) = True"
| "truthy (Obj kvs) = True"

text \<open>\<open>typeof v\<close>: \<open>null\<close> and arrays are both \<open>'object'\<close>.\<close>

fun typeof :: "jsval \<Rightarrow> string" where
  "typeof Undefined = ''undefined''"
| "typeof Null = ''object''"
| "typeof (Bool b) = ''boolean''"
| "typeof (Num n) = ''number''"
| "typeof (Str s) = ''string''"
| "typeof (Arr xs) = ''object''"
| "typeof (Obj kvs) = ''object''"

text \<open>An optional string field (\<open>kid?: string\<close>) is truthy when present and not empty.\<close>

fun truthy_str :: "string option \<Rightarrow> bool" where
  "truthy_str None = False"
| "truthy_str (Some s) = (s \<noteq> [])"

text \<open>An optional string as a value of the language.\<close>

fun of_opt :: "string option \<Rightarrow> jsval" where
  "of_opt None = Undefined"
| "of_opt (Some s) = Str s"

text \<open>\<open>String.prototype.startsWith\<close> is \<^const>\<open>prefix\<close>.  \<open>split_first sep s\<close> finds the
  first occurrence of \<open>sep\<close> in \<open>s\<close> and returns what is before and after it.\<close>

fun split_first :: "string \<Rightarrow> string \<Rightarrow> (string \<times> string) option" where
  "split_first sep [] = (if sep = [] then Some ([], []) else None)"
| "split_first sep (c # cs) =
     (if prefix sep (c # cs) then Some ([], drop (length sep) (c # cs))
      else (case split_first sep cs of
              None \<Rightarrow> None
            | Some (a, b) \<Rightarrow> Some (c # a, b)))"

definition str_includes :: "string \<Rightarrow> string \<Rightarrow> bool" where
  "str_includes s sub = (split_first sub s \<noteq> None)"

text \<open>\<open>s.replace(pat, rep)\<close> with a string pattern replaces the first occurrence only.\<close>

definition str_replace :: "string \<Rightarrow> string \<Rightarrow> string \<Rightarrow> string" where
  "str_replace s pat rep =
     (case split_first pat s of None \<Rightarrow> s | Some (a, b) \<Rightarrow> a @ rep @ b)"

lemma split_first_decomp:
  "split_first sep s = Some (a, b) \<Longrightarrow> s = a @ sep @ b"
proof (induction s arbitrary: a b)
  case Nil
  then show ?case by (simp split: if_splits)
next
  case (Cons c cs)
  show ?case
  proof (cases "prefix sep (c # cs)")
    case True
    with Cons.prems have ab: "a = []" "b = drop (length sep) (c # cs)" by auto
    from True obtain r where "c # cs = sep @ r" by (auto simp: prefix_def)
    with ab show ?thesis by simp
  next
    case False
    with Cons.prems obtain a' where "split_first sep cs = Some (a', b)" "a = c # a'"
      by (auto split: option.splits)
    with Cons.IH show ?thesis by simp
  qed
qed

text \<open>\<open>s.split(sep)\<close> for a separator that is not empty.\<close>

function split :: "string \<Rightarrow> string \<Rightarrow> string list" where
  "split s sep =
     (if sep = [] then [s]
      else (case split_first sep s of
              None \<Rightarrow> [s]
            | Some (a, b) \<Rightarrow> a # split b sep))"
  by pat_completeness auto
termination
proof (relation "measure (\<lambda>(s, sep). length s)")
  show "wf (measure (\<lambda>(s, sep). length s))" by simp
next
  fix s sep :: string and x2 a b
  assume "sep \<noteq> []" "split_first sep s = Some x2" "(a, b) = x2"
  then have "s = a @ sep @ b" by (simp add: split_first_decomp)
  with \<open>sep \<noteq> []\<close> have "length b < length s" by (cases sep) auto
  then show "((b, sep), (s, sep)) \<in> measure (\<lambda>(s, sep). length s)" by simp
qed

declare split.simps [simp del]

text \<open>Indexing an array: out of range reads \<open>undefined\<close>, here \<open>None\<close>.\<close>

definition at_index :: "'a list \<Rightarrow> nat \<Rightarrow> 'a option" where
  "at_index xs i = (if i < length xs then Some (xs ! i) else None)"

text \<open>A template string that puts a value between single quotes.\<close>

definition quoted :: "string \<Rightarrow> string" where
  "quoted s = [CHR 0x27] @ s @ [CHR 0x27]"

section \<open>Errors\<close>

text \<open>
  A thrown \<open>Error\<close> (or a rejected promise) is the left summand of the result.  The message
  constants of \<open>SIOPErrors\<close> and \<open>PIN_VALIDATION_ERROR\<close> are declared outside the files at
  hand, so a message built from one of them is the constant's name with the literal rest of
  the message.  \<open>TypeError\<close>, \<open>URIError\<close> and \<open>SyntaxError\<close> are the errors of the language
  itself, \<open>HelperError\<close> is what a function from outside the files may throw, and
  \<open>Unmodelled\<close> stands where a built-in function is given an input this model of it does
  not cover.
\<close>

datatype SIOPErrors =
    INVALID_JWT
  | INVALID_CLIENT_ID_MUST_MATCH_REDIRECT_URI
  | MISSING_ATTESTATION_JWT
  | MISSING_ATTESTATION_JWT_TYP
  | BAD_VERIFIER_ATTESTATION
  | BAD_VERIFIER_ATTESTATION_REDIRECT_URIS
  | INVALID_REQUEST_OBJECT_ENTITY_ID_SCHEME_CLIENT_ID
  | INVALID_CLIENT_ID_SCHEME

datatype js_error =
    Error string
  | SIOPError SIOPErrors string
  | PIN_VALIDATION_ERROR
  | TypeError
  | URIError
  | SyntaxError
  | Unmodelled
  | HelperError string

type_synonym 'a result = "js_error + 'a"

section \<open>CredentialOfferUtils: the transaction code check\<close>

text \<open>
  The pattern \<open>/[0-9{,8}]/\<close> is one character class: a digit, an opening brace, a comma,
  the digit 8 again, or a closing brace.  \<open>test\<close> looks for a match anywhere in the string.
\<close>

definition pin_class :: "char \<Rightarrow> bool" where
  "pin_class c = (c \<in> set ''0123456789'' \<or> c = CHR ''{'' \<or> c = CHR '','' \<or> c = CHR ''8''
                  \<or> c = CHR ''}'')"

definition pin_regex_test :: "string \<Rightarrow> bool" where
  "pin_regex_test pin = list_ex pin_class pin"

definition assertValidPinNumber :: "string option \<Rightarrow> unit result" where
  "assertValidPinNumber pin =
     (case pin of
        None \<Rightarrow> Inr ()
      | Some p \<Rightarrow>
          if truthy_str pin \<and> \<not> pin_regex_test p then Inl PIN_VALIDATION_ERROR else Inr ())"

text \<open>What the claim asks for: digits only, at most eight of them.\<close>

definition digits_upto_8 :: "string \<Rightarrow> bool" where
  "digits_upto_8 pin = (list_all (\<lambda>c. c \<in> set ''0123456789'') pin \<and> length pin \<le> 8)"

section \<open>CredentialOfferUtils: building an offer\<close>

text \<open>
  The types of the offer come from the package \<open>@sphereon/oid4vci-common\<close>, which is not
  among the files at hand; the records below have the members the code reads and writes.
  \<open>Grant\<close> is the object that maps a grant type to its grant, in insertion order.
\<close>

type_synonym Grant = "(string \<times> jsval) list"

record CredentialOfferPayloadV1_0_13 =
  credential_issuer :: "string option"
  credential_configuration_ids :: "string list"
  grants :: "Grant option"

text \<open>The member \<open>credential_issuer\<close> of the metadata is \<open>md_credential_issuer\<close> here.\<close>

record CredentialIssuerMetadataOptsV1_0_13 =
  md_credential_issuer :: "string option"
  credential_configurations_supported :: "(string \<times> jsval) list option"

text \<open>
  The parameter \<open>opts\<close> of \<open>createCredentialOfferObject\<close>.  The code reads it through
  \<open>opts?.\<close> only, so a call without \<open>opts\<close> is the record with every member absent.
\<close>

record CreateOfferOpts =
  credentialOffer :: "CredentialOfferPayloadV1_0_13 option"
  credentialOfferUri :: "string option"
  scheme :: "string option"
  baseUri :: "string option"
  issuerState :: "string option"
  txCode :: jsval
  preAuthorizedCode :: "string option"

text \<open>What \<open>createCredentialOfferObject\<close> returns; \<open>scheme\<close>, \<open>baseUri\<close> and \<open>grants\<close> of the
  source are \<open>r_scheme\<close>, \<open>r_baseUri\<close> and \<open>r_grants\<close>.\<close>

record CredentialOfferObject =
  credential_offer :: CredentialOfferPayloadV1_0_13
  credential_offer_uri :: "string option"
  r_scheme :: string
  r_baseUri :: string
  r_grants :: "Grant option"

text \<open>\<open>v?.k\<close>: \<open>undefined\<close> unless \<open>v\<close> is an object that has the member.\<close>

fun opt_get :: "jsval \<Rightarrow> string \<Rightarrow> jsval" where
  "opt_get (Obj kvs) k = (case map_of kvs k of None \<Rightarrow> Undefined | Some v \<Rightarrow> v)"
| "opt_get v k = Undefined"

text \<open>\<open>g[k]\<close> on a \<open>Grant\<close>.\<close>

definition grant_get :: "Grant \<Rightarrow> string \<Rightarrow> jsval" where
  "grant_get g k = (case map_of g k of None \<Rightarrow> Undefined | Some v \<Rightarrow> v)"

text \<open>An object literal: a member whose value is \<open>undefined\<close> is not stored.\<close>

definition mk_obj :: "(string \<times> jsval) list \<Rightarrow> jsval" where
  "mk_obj kvs = Obj (filter (\<lambda>(k, v). v \<noteq> Undefined) kvs)"

definition PRE_AUTH_GRANT :: string where
  "PRE_AUTH_GRANT = ''urn:ietf:params:oauth:grant-type:pre-authorized_code''"

text \<open>
  The block that sets the grants.  The function runs it twice, the second time on the
  result of the first; \<open>uuid\<close> is what \<open>uuidv4()\<close> returns if this run calls it.
  \<open>credential_offer.grants[k] = v\<close> updates the member in place or appends it
  (\<^const>\<open>AList.update\<close>); \<open>credential_offer.grants = {...}\<close> replaces the whole object.
\<close>

definition setGrants ::
  "CreateOfferOpts \<Rightarrow> string \<Rightarrow> CredentialOfferPayloadV1_0_13 \<Rightarrow> CredentialOfferPayloadV1_0_13"
where
  "setGrants opts uuid offer =
     (let g = (case grants offer of None \<Rightarrow> [] | Some g' \<Rightarrow> g')
      in if truthy_str (preAuthorizedCode opts) then
           offer\<lparr>grants :=
             Some (AList.update PRE_AUTH_GRANT
                     (mk_obj [(''pre-authorized_code'', of_opt (preAuthorizedCode opts)),
                              (''tx_code'', txCode opts)])
                     g)\<rparr>
         else if \<not> truthy (opt_get (grant_get g ''authorization_code'') ''issuer_state'') then
           offer\<lparr>grants :=
             Some [(''authorization_code'',
                    Obj [(''issuer_state'',
                          Str (case issuerState opts of None \<Rightarrow> uuid | Some s \<Rightarrow> s))])]\<rparr>
         else offer\<lparr>grants := Some g\<rparr>)"

text \<open>The scheme: the option without its \<open>://\<close>, or the scheme of the base URI, or the default.\<close>

definition offerScheme :: "CreateOfferOpts \<Rightarrow> string" where
  "offerScheme opts =
     (case scheme opts of
        Some s \<Rightarrow> str_replace s ''://'' []
      | None \<Rightarrow>
          (case baseUri opts of
             None \<Rightarrow> ''openid-credential-offer''
           | Some b \<Rightarrow>
               if str_includes b ''://'' then
                 (case split b ''://'' of [] \<Rightarrow> [] | x # xs \<Rightarrow> x)
               else ''openid-credential-offer''))"

definition offerBaseUri ::
  "CredentialIssuerMetadataOptsV1_0_13 option \<Rightarrow> CreateOfferOpts \<Rightarrow> string \<Rightarrow> string result"
where
  "offerBaseUri issuerMetadata opts scheme' =
     (if truthy_str (baseUri opts) then Inr (case baseUri opts of None \<Rightarrow> [] | Some b \<Rightarrow> b)
      else if prefix ''http'' scheme' then
        (case (case issuerMetadata of None \<Rightarrow> None | Some m \<Rightarrow> md_credential_issuer m) of
           None \<Rightarrow>
             Inl (Error (''A '' @ quoted scheme'
                         @ '' scheme requires a URI to be present as baseUri''))
         | Some b \<Rightarrow>
             if b = [] then
               Inl (Error (''A '' @ quoted scheme'
                           @ '' scheme requires a URI to be present as baseUri''))
             else if \<not> prefix (scheme' @ ''://'') b then
               Inl (Error (''scheme '' @ scheme' @ '' is different from base uri '' @ b))
             else Inr b)
      else Inr [])"

definition createCredentialOfferObject ::
  "CredentialIssuerMetadataOptsV1_0_13 option \<Rightarrow> CreateOfferOpts \<Rightarrow> string \<Rightarrow> string
   \<Rightarrow> CredentialOfferObject result"
where
  "createCredentialOfferObject issuerMetadata opts uuid1 uuid2 =
     (if issuerMetadata = None \<and> credentialOffer opts = None
         \<and> \<not> truthy_str (credentialOfferUri opts)
      then Inl (Error ''You have to provide issuerMetadata or credentialOffer object for creating a deeplink'')
      else
        let scheme' = offerScheme opts
        in case offerBaseUri issuerMetadata opts scheme' of
             Inl e \<Rightarrow> Inl e
           | Inr b \<Rightarrow>
               let baseUri' = str_replace b (scheme' @ ''://'') [];
                   credential_offer_uri' =
                     (case credentialOfferUri opts of
                        None \<Rightarrow> None
                      | Some u \<Rightarrow>
                          if u \<noteq> [] then
                            Some (scheme' @ ''://'' @ baseUri' @ ''?credential_offer_uri='' @ u)
                          else None)
               in case (case credentialOffer opts of
                          Some p \<Rightarrow> Inr p
                        | None \<Rightarrow>
                            (case (case issuerMetadata of
                                     None \<Rightarrow> None
                                   | Some m \<Rightarrow> credential_configurations_supported m) of
                               None \<Rightarrow>
                                 Inl (Error ''credential_configurations_supported is mandatory in the metadata'')
                             | Some supported \<Rightarrow>
                                 Inr \<lparr>credential_issuer =
                                        (case issuerMetadata of
                                           None \<Rightarrow> None
                                         | Some m \<Rightarrow> md_credential_issuer m),
                                      credential_configuration_ids = map fst supported,
                                      grants = None\<rparr>)) of
                    Inl e \<Rightarrow> Inl e
                  | Inr p \<Rightarrow>
                      let p' = setGrants opts uuid2 (setGrants opts uuid1 p)
                      in Inr \<lparr>credential_offer = p',
                              credential_offer_uri = credential_offer_uri',
                              r_scheme = scheme',
                              r_baseUri = baseUri',
                              r_grants = grants p'\<rparr>)"

text \<open>
  Names for what the statements below speak of: the grants of the payload the caller
  supplied (none when the payload is built from the metadata), and the two grants the
  function writes.
\<close>

definition supplied_grants :: "CreateOfferOpts \<Rightarrow> Grant" where
  "supplied_grants opts =
     (case credentialOffer opts of
        None \<Rightarrow> []
      | Some p \<Rightarrow> (case grants p of None \<Rightarrow> [] | Some g \<Rightarrow> g))"

definition authorizationCodeGrant :: "CreateOfferOpts \<Rightarrow> string \<Rightarrow> Grant" where
  "authorizationCodeGrant opts uuid =
     [(''authorization_code'',
       Obj [(''issuer_state'', Str (case issuerState opts of None \<Rightarrow> uuid | Some s \<Rightarrow> s))])]"

definition preAuthorizedGrant :: "CreateOfferOpts \<Rightarrow> jsval" where
  "preAuthorizedGrant opts =
     mk_obj [(''pre-authorized_code'', of_opt (preAuthorizedCode opts)),
             (''tx_code'', txCode opts)]"

text \<open>Concrete inputs, used where a statement is evaluated.\<close>

definition no_opts :: CreateOfferOpts where
  "no_opts =
     \<lparr>credentialOffer = None, credentialOfferUri = None, scheme = None, baseUri = None,
      issuerState = None, txCode = Undefined, preAuthorizedCode = None\<rparr>"

definition offer_with_pre_auth :: CredentialOfferPayloadV1_0_13 where
  "offer_with_pre_auth =
     \<lparr>credential_issuer = Some ''https://issuer.example'',
      credential_configuration_ids = [''UniversityDegree''],
      grants = Some [(PRE_AUTH_GRANT, Obj [(''pre-authorized_code'', Str ''xyz'')])]\<rparr>"

definition offer_with_issuer_state :: CredentialOfferPayloadV1_0_13 where
  "offer_with_issuer_state =
     \<lparr>credential_issuer = Some ''https://issuer.example'',
      credential_configuration_ids = [''UniversityDegree''],
      grants = Some [(''authorization_code'', Obj [(''issuer_state'', Str ''s1'')])]\<rparr>"

definition example_metadata :: CredentialIssuerMetadataOptsV1_0_13 where
  "example_metadata =
     \<lparr>md_credential_issuer = Some ''https://issuer.example'',
      credential_configurations_supported = Some [(''UniversityDegree'', Obj [])]\<rparr>"

section \<open>Functions of the language: URI components and JSON\<close>

text \<open>
  \<open>encodeURIComponent\<close>, \<open>decodeURIComponent\<close>, \<open>JSON.stringify\<close> and \<open>JSON.parse\<close> are
  functions of the language, not of the repository; they are written here after ECMA-262,
  on strings that are the bytes of UTF-8 text.

  \<open>encodeURIComponent\<close> keeps the unreserved characters (letters, digits and
  \<open>- _ . ! ~ * ' ( )\<close>) and writes every other byte as \<open>%\<close> and two upper-case hexadecimal
  digits.  \<open>decodeURIComponent\<close> reads each \<open>%XX\<close> back and throws a \<open>URIError\<close> at a \<open>%\<close> that
  is not followed by two hexadecimal digits; it does not check that the bytes it decodes
  are UTF-8.
\<close>

definition hex_digit :: "bool \<Rightarrow> nat \<Rightarrow> char" where
  "hex_digit upper d = (if upper then ''0123456789ABCDEF'' else ''0123456789abcdef'') ! d"

definition hex2 :: "bool \<Rightarrow> char \<Rightarrow> string" where
  "hex2 upper c = [hex_digit upper (of_char c div 16), hex_digit upper (of_char c mod 16)]"

definition hex_value :: "char \<Rightarrow> nat option" where
  "hex_value c =
     (let n = (of_char c :: nat) in
      if 48 \<le> n \<and> n \<le> 57 then Some (n - 48)
      else if 65 \<le> n \<and> n \<le> 70 then Some (n - 55)
      else if 97 \<le> n \<and> n \<le> 102 then Some (n - 87)
      else None)"

definition uri_unreserved :: "char \<Rightarrow> bool" where
  "uri_unreserved c =
     (let n = (of_char c :: nat) in
      (65 \<le> n \<and> n \<le> 90) \<or> (97 \<le> n \<and> n \<le> 122) \<or> (48 \<le> n \<and> n \<le> 57)
      \<or> c \<in> set ''-_.!~*'()'')"

definition encodeURIComponent :: "string \<Rightarrow> string" where
  "encodeURIComponent s =
     concat (map (\<lambda>c. if uri_unreserved c then [c] else CHR ''%'' # hex2 True c) s)"

fun decodeURIComponent :: "string \<Rightarrow> string result" where
  "decodeURIComponent [] = Inr []"
| "decodeURIComponent (c # cs) =
     (if c = CHR ''%'' then
        (case cs of
           a # b # rest \<Rightarrow>
             (case (hex_value a, hex_value b) of
                (Some x, Some y) \<Rightarrow>
                  (case decodeURIComponent rest of
                     Inl e \<Rightarrow> Inl e
                   | Inr t \<Rightarrow> Inr (char_of (16 * x + y) # t))
              | _ \<Rightarrow> Inl URIError)
         | _ \<Rightarrow> Inl URIError)
      else (case decodeURIComponent cs of Inl e \<Rightarrow> Inl e | Inr t \<Rightarrow> Inr (c # t)))"

text \<open>
  \<open>JSON.stringify\<close> without indentation.  It gives \<open>undefined\<close> (here \<open>None\<close>) for
  \<open>undefined\<close>; inside an array \<open>undefined\<close> is written \<open>null\<close>, and a member of an object
  whose value is \<open>undefined\<close> is left out.  A number is an integer and is written in decimal,
  which is what the language does for the integers below \<open>10^21\<close>.  In a string the quote,
  the backslash and the control characters are escaped, the latter as \<open>\b \f \n \r \t\<close> or
  \<open>\u00XX\<close> with lower-case digits.
\<close>

function digits :: "nat \<Rightarrow> string" where
  "digits n = (if n < 10 then [char_of (48 + n)] else digits (n div 10) @ [char_of (48 + n mod 10)])"
  by pat_completeness auto
termination by (relation "measure id") auto

declare digits.simps [simp del]

definition number_to_string :: "int \<Rightarrow> string" where
  "number_to_string i = (if i < 0 then CHR ''-'' # digits (nat (- i)) else digits (nat i))"

definition json_escape :: "char \<Rightarrow> string" where
  "json_escape c =
     (if c = CHR 0x22 then [CHR 0x5C, CHR 0x22]
      else if c = CHR 0x5C then [CHR 0x5C, CHR 0x5C]
      else if c = CHR 0x08 then [CHR 0x5C, CHR ''b'']
      else if c = CHR 0x0C then [CHR 0x5C, CHR ''f'']
      else if c = CHR 0x0A then [CHR 0x5C, CHR ''n'']
      else if c = CHR 0x0D then [CHR 0x5C, CHR ''r'']
      else if c = CHR 0x09 then [CHR 0x5C, CHR ''t'']
      else if (of_char c :: nat) < 32 then [CHR 0x5C, CHR ''u'', CHR ''0'', CHR ''0''] @ hex2 False c
      else [c])"

definition json_quote :: "string \<Rightarrow> string" where
  "json_quote s = [CHR 0x22] @ concat (map json_escape s) @ [CHR 0x22]"

fun join :: "string list \<Rightarrow> string" where
  "join [] = []"
| "join [x] = x"
| "join (x # y # ys) = x @ CHR '','' # join (y # ys)"

primrec JSON_stringify :: "jsval \<Rightarrow> string option" where
  "JSON_stringify Undefined = None"
| "JSON_stringify Null = Some ''null''"
| "JSON_stringify (Bool b) = Some (if b then ''true'' else ''false'')"
| "JSON_stringify (Num n) = Some (number_to_string n)"
| "JSON_stringify (Str s) = Some (json_quote s)"
| "JSON_stringify (Arr xs) =
     Some (''['' @ join (map (\<lambda>t. case t of None \<Rightarrow> ''null'' | Some s \<Rightarrow> s)
                          (map JSON_stringify xs)) @ '']'')"
| "JSON_stringify (Obj kvs) =
     Some (''{'' @ join (List.map_filter
                          (\<lambda>(k, t). case t of None \<Rightarrow> None
                                     | Some s \<Rightarrow> Some (json_quote k @ '':'' @ s))
                          (map (map_prod id JSON_stringify) kvs)) @ ''}'')"

text \<open>
  \<open>JSON.parse\<close> without a reviver: white space between the tokens, the literals, numbers,
  strings with their escapes, arrays and objects; in an object a key that comes again
  replaces the value of its first occurrence.  A number with a fraction or an exponent and
  an escape \<open>\uXXXX\<close> of a character outside ASCII are outside this model: the result is
  \<open>Unmodelled\<close>.  The three mutually recursive functions take fuel, which \<open>JSON_parse\<close> sets
  to the length of the text; to run out of fuel is \<open>Unmodelled\<close> too.
\<close>

definition is_ws :: "char \<Rightarrow> bool" where
  "is_ws c = (c = CHR '' '' \<or> c = CHR 0x09 \<or> c = CHR 0x0A \<or> c = CHR 0x0D)"

definition skip_ws :: "string \<Rightarrow> string" where
  "skip_ws s = dropWhile is_ws s"

definition is_digit :: "char \<Rightarrow> bool" where
  "is_digit c = (48 \<le> (of_char c :: nat) \<and> (of_char c :: nat) \<le> 57)"

definition digits_value :: "string \<Rightarrow> nat" where
  "digits_value ds = foldl (\<lambda>a c. 10 * a + (of_char c - 48)) 0 ds"

definition json_unescape :: "char \<Rightarrow> char option" where
  "json_unescape e =
     (if e = CHR 0x22 then Some (CHR 0x22)
      else if e = CHR 0x5C then Some (CHR 0x5C)
      else if e = CHR ''/'' then Some (CHR ''/'')
      else if e = CHR ''b'' then Some (CHR 0x08)
      else if e = CHR ''f'' then Some (CHR 0x0C)
      else if e = CHR ''n'' then Some (CHR 0x0A)
      else if e = CHR ''r'' then Some (CHR 0x0D)
      else if e = CHR ''t'' then Some (CHR 0x09)
      else None)"

definition unicode_escape :: "string \<Rightarrow> char result" where
  "unicode_escape h =
     (case map hex_value h of
        [Some w, Some x, Some y, Some z] \<Rightarrow>
          if ((w * 16 + x) * 16 + y) * 16 + z < 128
          then Inr (char_of (((w * 16 + x) * 16 + y) * 16 + z))
          else Inl Unmodelled
      | _ \<Rightarrow> Inl SyntaxError)"

fun parse_string :: "string \<Rightarrow> (string \<times> string) result" where
  "parse_string [] = Inl SyntaxError"
| "parse_string (c # cs) =
     (if c = CHR 0x22 then Inr ([], cs)
      else if c = CHR 0x5C then
        (case cs of
           [] \<Rightarrow> Inl SyntaxError
         | e # cs' \<Rightarrow>
             if e = CHR ''u'' then
               (case cs' of
                  h1 # h2 # h3 # h4 # rest \<Rightarrow>
                    (case unicode_escape [h1, h2, h3, h4] of
                       Inl err \<Rightarrow> Inl err
                     | Inr x \<Rightarrow>
                         (case parse_string rest of
                            Inl err \<Rightarrow> Inl err
                          | Inr (t, r) \<Rightarrow> Inr (x # t, r)))
                | _ \<Rightarrow> Inl SyntaxError)
             else
               (case json_unescape e of
                  None \<Rightarrow> Inl SyntaxError
                | Some x \<Rightarrow>
                    (case parse_string cs' of
                       Inl err \<Rightarrow> Inl err
                     | Inr (t, r) \<Rightarrow> Inr (x # t, r))))
      else if (of_char c :: nat) < 32 then Inl SyntaxError
      else (case parse_string cs of
              Inl err \<Rightarrow> Inl err
            | Inr (t, r) \<Rightarrow> Inr (c # t, r)))"

definition parse_number :: "string \<Rightarrow> (jsval \<times> string) result" where
  "parse_number s =
     (let neg = (case s of [] \<Rightarrow> False | c # cs \<Rightarrow> c = CHR ''-'');
          s1 = (if neg then tl s else s);
          ds = takeWhile is_digit s1;
          rest = dropWhile is_digit s1
      in if ds = [] then Inl SyntaxError
         else if 1 < length ds \<and> hd ds = CHR ''0'' then Inl SyntaxError
         else if (case rest of [] \<Rightarrow> False
                             | c # cs \<Rightarrow> c = CHR ''.'' \<or> c = CHR ''e'' \<or> c = CHR ''E'')
              then Inl Unmodelled
         else Inr (Num (if neg then - int (digits_value ds) else int (digits_value ds)), rest))"

definition parse_literal :: "string \<Rightarrow> jsval \<Rightarrow> string \<Rightarrow> (jsval \<times> string) result" where
  "parse_literal word v s = (if prefix word s then Inr (v, drop (length word) s) else Inl SyntaxError)"

definition object_of_members :: "(string \<times> jsval) list \<Rightarrow> jsval" where
  "object_of_members ms = Obj (foldl (\<lambda>obj (k, v). AList.update k v obj) [] ms)"

fun parse_value :: "nat \<Rightarrow> string \<Rightarrow> (jsval \<times> string) result"
and parse_elements :: "nat \<Rightarrow> string \<Rightarrow> (jsval list \<times> string) result"
and parse_members :: "nat \<Rightarrow> string \<Rightarrow> ((string \<times> jsval) list \<times> string) result"
where
  "parse_value 0 s = Inl Unmodelled"
| "parse_value (Suc n) s =
     (case skip_ws s of
        [] \<Rightarrow> Inl SyntaxError
      | c # cs \<Rightarrow>
          if c = CHR 0x22 then
            (case parse_string cs of
               Inl err \<Rightarrow> Inl err
             | Inr (str, rest) \<Rightarrow> Inr (Str str, rest))
          else if c = CHR ''['' then
            (if (case skip_ws cs of [] \<Rightarrow> False | d # ds \<Rightarrow> d = CHR '']'')
             then Inr (Arr [], tl (skip_ws cs))
             else (case parse_elements n cs of
                     Inl err \<Rightarrow> Inl err
                   | Inr (xs, rest) \<Rightarrow> Inr (Arr xs, rest)))
          else if c = CHR ''{'' then
            (if (case skip_ws cs of [] \<Rightarrow> False | d # ds \<Rightarrow> d = CHR ''}'')
             then Inr (Obj [], tl (skip_ws cs))
             else (case parse_members n cs of
                     Inl err \<Rightarrow> Inl err
                   | Inr (ms, rest) \<Rightarrow> Inr (object_of_members ms, rest)))
          else if c = CHR ''t'' then parse_literal ''true'' (Bool True) (c # cs)
          else if c = CHR ''f'' then parse_literal ''false'' (Bool False) (c # cs)
          else if c = CHR ''n'' then parse_literal ''null'' Null (c # cs)
          else parse_number (c # cs))"
| "parse_elements 0 s = Inl Unmodelled"
| "parse_elements (Suc n) s =
     (case parse_value n s of
        Inl err \<Rightarrow> Inl err
      | Inr (v, rest) \<Rightarrow>
          (case skip_ws rest of
             [] \<Rightarrow> Inl SyntaxError
           | c # cs \<Rightarrow>
               if c = CHR '','' then
                 (case parse_elements n cs of
                    Inl err \<Rightarrow> Inl err
                  | Inr (vs, rest') \<Rightarrow> Inr (v # vs, rest'))
               else if c = CHR '']'' then Inr ([v], cs)
               else Inl SyntaxError))"
| "parse_members 0 s = Inl Unmodelled"
| "parse_members (Suc n) s =
     (case skip_ws s of
        [] \<Rightarrow> Inl SyntaxError
      | q # s1 \<Rightarrow>
          if q \<noteq> CHR 0x22 then Inl SyntaxError
          else (case parse_string s1 of
                  Inl err \<Rightarrow> Inl err
                | Inr (k, s2) \<Rightarrow>
                    (case skip_ws s2 of
                       [] \<Rightarrow> Inl SyntaxError
                     | colon # s3 \<Rightarrow>
                         if colon \<noteq> CHR '':'' then Inl SyntaxError
                         else (case parse_value n s3 of
                                 Inl err \<Rightarrow> Inl err
                               | Inr (v, s4) \<Rightarrow>
                                   (case skip_ws s4 of
                                      [] \<Rightarrow> Inl SyntaxError
                                    | c # cs \<Rightarrow>
                                        if c = CHR '','' then
                                          (case parse_members n cs of
                                             Inl err \<Rightarrow> Inl err
                                           | Inr (ms, rest) \<Rightarrow> Inr ((k, v) # ms, rest))
                                        else if c = CHR ''}'' then Inr ([(k, v)], cs)
                                        else Inl SyntaxError)))))"

definition JSON_parse :: "string \<Rightarrow> jsval result" where
  "JSON_parse s =
     (case parse_value (length s) s of
        Inl err \<Rightarrow> Inl err
      | Inr (v, rest) \<Rightarrow> if skip_ws rest = [] then Inr v else Inl SyntaxError)"

text \<open>
  The values that JSON can carry: no \<open>undefined\<close> anywhere, integers that a number of the
  language holds exactly, and objects whose keys are all different.
\<close>

primrec is_json :: "jsval \<Rightarrow> bool" where
  "is_json Undefined = False"
| "is_json Null = True"
| "is_json (Bool b) = True"
| "is_json (Num n) = (- (2 ^ 53) < n \<and> n < 2 ^ 53)"
| "is_json (Str s) = True"
| "is_json (Arr xs) = list_all (\<lambda>b. b) (map is_json xs)"
| "is_json (Obj kvs) =
     (distinct (map fst kvs) \<and> list_all (\<lambda>(k, b). b) (map (map_prod id is_json) kvs))"

text \<open>
  Notions for the proof that parsing undoes serialisation: the text of a value, the text of
  a member, what may follow a number, how the text of a value starts, and the statement
  proved by induction on the value.
\<close>

definition ser :: "jsval \<Rightarrow> string" where
  "ser v = (case JSON_stringify v of None \<Rightarrow> ''null'' | Some t \<Rightarrow> t)"

definition ser_member :: "string \<times> jsval \<Rightarrow> string" where
  "ser_member kv = json_quote (fst kv) @ '':'' @ ser (snd kv)"

definition ends_number :: "string \<Rightarrow> bool" where
  "ends_number rest =
     (case rest of
        [] \<Rightarrow> True
      | c # cs \<Rightarrow> \<not> is_digit c \<and> c \<noteq> CHR ''.'' \<and> c \<noteq> CHR ''e'' \<and> c \<noteq> CHR ''E'')"

definition starts_value :: "string \<Rightarrow> bool" where
  "starts_value t =
     (case t of
        [] \<Rightarrow> False
      | c # cs \<Rightarrow> \<not> is_ws c \<and> c \<noteq> CHR '']'' \<and> c \<noteq> CHR ''}'')"

definition roundtrips :: "jsval \<Rightarrow> bool" where
  "roundtrips v =
     (\<forall>n rest. size v < n \<longrightarrow> ends_number rest \<longrightarrow> parse_value n (ser v @ rest) = Inr (v, rest))"

section \<open>CredentialOfferUtils: the URI of an offer\<close>

text \<open>
  The first parameter of \<open>createCredentialOfferURIFromObject\<close> is an offer of any version of
  the protocol, so its payload \<open>credential_offer\<close> is a value of the language; its members
  \<open>credential_offer\<close>, \<open>credential_offer_uri\<close>, \<open>scheme\<close> and \<open>baseUri\<close> carry the prefix
  \<open>offer_\<close> here, those of \<open>opts\<close> the prefix \<open>opts_\<close>.  As before, a call without \<open>opts\<close> is
  the record with both members absent.
\<close>

record UniformCredentialOffer =
  offer_credential_offer :: jsval
  offer_credential_offer_uri :: "string option"
  offer_scheme :: "string option"
  offer_baseUri :: "string option"

record UriOpts =
  opts_scheme :: "string option"
  opts_baseUri :: "string option"

text \<open>
  The scheme and the base URI as the function computes them.  \<open>split('://')[1]\<close> is read
  only when the base URI contains \<open>://\<close>, so that it always exists; the template string
  would print \<open>undefined\<close> otherwise.
\<close>

definition uriScheme :: "UniformCredentialOffer \<Rightarrow> UriOpts \<Rightarrow> string" where
  "uriScheme co opts =
     (case opts_scheme opts of
        Some s \<Rightarrow> str_replace s ''://'' []
      | None \<Rightarrow>
          (case offer_scheme co of
             Some s \<Rightarrow> str_replace s ''://'' []
           | None \<Rightarrow> ''openid-credential-offer''))"

definition uriBaseUri :: "UniformCredentialOffer \<Rightarrow> UriOpts \<Rightarrow> string" where
  "uriBaseUri co opts =
     (let b = (case opts_baseUri opts of
                 Some x \<Rightarrow> x
               | None \<Rightarrow> (case offer_baseUri co of Some x \<Rightarrow> x | None \<Rightarrow> []))
      in if str_includes b ''://'' then
           (case split b ''://'' of x # y # ys \<Rightarrow> y | _ \<Rightarrow> ''undefined'')
         else b)"

definition createCredentialOfferURIFromObject ::
  "UniformCredentialOffer \<Rightarrow> UriOpts \<Rightarrow> string result"
where
  "createCredentialOfferURIFromObject co opts =
     (let scheme' = uriScheme co opts;
          baseUri' = uriBaseUri co opts
      in if prefix ''http'' scheme' \<and> baseUri' = [] then
           Inl (Error (''Cannot use scheme '' @ quoted scheme'
                       @ '' without providing a baseUri value''))
         else (case offer_credential_offer_uri co of
                 Some u \<Rightarrow>
                   if u \<noteq> [] then
                     (if str_includes u ''credential_offer_uri='' then Inr u
                      else Inr (scheme' @ ''://'' @ baseUri' @ ''?credential_offer_uri='' @ u))
                   else
                     Inr (scheme' @ ''://'' @ baseUri' @ ''?credential_offer=''
                          @ encodeURIComponent
                              (case JSON_stringify (offer_credential_offer co) of
                                 None \<Rightarrow> ''undefined''
                               | Some t \<Rightarrow> t))
               | None \<Rightarrow>
                   Inr (scheme' @ ''://'' @ baseUri' @ ''?credential_offer=''
                        @ encodeURIComponent
                            (case JSON_stringify (offer_credential_offer co) of
                               None \<Rightarrow> ''undefined''
                             | Some t \<Rightarrow> t))))"

text \<open>
  What a reader of the URI does: the value of the query parameter is what follows the last
  \<open>=\<close> of the URI (an encoded component has no \<open>=\<close>); it is decoded, then parsed.
\<close>

definition query_value :: "string \<Rightarrow> string" where
  "query_value uri = rev (takeWhile (\<lambda>c. c \<noteq> CHR ''='') (rev uri))"

definition decodeCredentialOffer :: "string \<Rightarrow> jsval result" where
  "decodeCredentialOffer uri =
     (case decodeURIComponent (query_value uri) of
        Inl e \<Rightarrow> Inl e
      | Inr t \<Rightarrow> JSON_parse t)"

text \<open>A concrete offer and its URI, used where a statement is evaluated.\<close>

definition example_offer_payload :: jsval where
  "example_offer_payload =
     Obj [(''credential_issuer'', Str ''https://issuer.example''),
          (''credential_configuration_ids'', Arr [Str ''UniversityDegree'']),
          (''grants'',
           Obj [(''urn:ietf:params:oauth:grant-type:pre-authorized_code'',
                 Obj [(''pre-authorized_code'', Str ''abc''),
                      (''tx_code'', Obj [(''length'', Num 4)])])])]"

definition example_uri_offer :: UniformCredentialOffer where
  "example_uri_offer =
     \<lparr>offer_credential_offer = example_offer_payload, offer_credential_offer_uri = None,
      offer_scheme = None, offer_baseUri = None\<rparr>"

definition example_uri :: string where
  "example_uri = ''openid-credential-offer://?credential_offer=%7B%22credential_issuer%22%3A%22https%3A%2F%2Fissuer.example%22%2C%22credential_configuration_ids%22%3A%5B%22UniversityDegree%22%5D%2C%22grants%22%3A%7B%22urn%3Aietf%3Aparams%3Aoauth%3Agrant-type%3Apre-authorized_code%22%3A%7B%22pre-authorized_code%22%3A%22abc%22%2C%22tx_code%22%3A%7B%22length%22%3A4%7D%7D%7D%7D''"

section \<open>JwtVerifier: which trust method a token asks for\<close>

text \<open>
  \<open>JwtType\<close> is the union of the three literals \<open>'id-token'\<close>, \<open>'request-object'\<close> and
  \<open>'verifier-attestation'\<close> that the verifier types of the file enumerate.
\<close>

datatype JwtType = IdToken | RequestObject | VerifierAttestation

fun type_str :: "JwtType \<Rightarrow> string" where
  "type_str IdToken = ''id-token''"
| "type_str RequestObject = ''request-object''"
| "type_str VerifierAttestation = ''verifier-attestation''"

text \<open>
  The header and payload of a decoded token, with the members the file reads.  \<open>kid\<close>, the
  nested token \<open>jwt\<close> and \<open>client_id\<close> are strings where present (the code calls string
  methods on them and stores them in \<open>string\<close> fields); every other member is whatever the
  JSON of the token holds, since the code compares it or asks for its \<open>typeof\<close> itself.
\<close>

record JwtHeader =
  kid :: "string option"
  typ' :: jsval
  x5c :: jsval
  jwk :: jsval
  jwt :: "string option"

record JwtPayload =
  iss :: jsval
  sub :: jsval
  exp :: jsval
  cnf :: jsval
  sub_jwk :: jsval
  redirect_uris :: jsval
  client_id_scheme :: jsval
  client_id :: "string option"
  redirect_uri :: jsval

record Jwt =
  header :: JwtHeader
  payload :: JwtPayload

text \<open>
  The three functions the file imports from \<open>../helpers\<close>.  Their code is not part of the
  files at hand; each may throw, and the functions below are stated for any of them.
\<close>

record helpers =
  getDigestAlgorithmFromJwkThumbprintUri :: "string \<Rightarrow> string result"
  calculateJwkThumbprintUri :: "jsval \<Rightarrow> string \<Rightarrow> string result"
  parseJWT :: "string \<Rightarrow> Jwt result"

text \<open>The union \<open>JwtVerifier\<close>: one constructor for each \<open>method\<close>.\<close>

datatype JwtVerifier =
    DidJwtVerifier JwtType string
  | X5cJwtVerifier JwtType "jsval list" jsval
  | JwkJwtVerifier JwtType jsval "string option"
  | CustomJwtVerifier JwtType
  | OpenIdFederationJwtVerifier JwtType string

text \<open>
  \<open>v[k]\<close> for a name \<open>k\<close> that is no built-in property: reading a member of \<open>undefined\<close> or
  \<open>null\<close> throws a \<open>TypeError\<close>, an object gives the member or \<open>undefined\<close>, anything else
  \<open>undefined\<close>.
\<close>

fun get_prop :: "jsval \<Rightarrow> string \<Rightarrow> jsval result" where
  "get_prop Undefined k = Inl TypeError"
| "get_prop Null k = Inl TypeError"
| "get_prop (Obj kvs) k = Inr (case map_of kvs k of None \<Rightarrow> Undefined | Some v \<Rightarrow> v)"
| "get_prop v k = Inr Undefined"

definition getDidJwtVerifier :: "Jwt \<Rightarrow> JwtType \<Rightarrow> JwtVerifier result" where
  "getDidJwtVerifier jwt' type =
     (case kid (header jwt') of
        None \<Rightarrow> Inl (SIOPError INVALID_JWT '' Missing kid header.'')
      | Some k \<Rightarrow>
          if k = [] then Inl (SIOPError INVALID_JWT '' Missing kid header.'')
          else if \<not> str_includes k ''#'' then
            Inl (SIOPError INVALID_JWT
                   (''. '' @ quoted (type_str type) @ '' contains an invalid kid header.''))
          else Inr (DidJwtVerifier type k))"

definition getX5cVerifier :: "Jwt \<Rightarrow> JwtType \<Rightarrow> JwtVerifier result" where
  "getX5cVerifier jwt' type =
     (if \<not> truthy (x5c (header jwt')) then
        Inl (SIOPError INVALID_JWT '' Missing x5c header.'')
      else (case x5c (header jwt') of
              Arr certs \<Rightarrow>
                if certs = [] \<or> \<not> list_all (\<lambda>cert. typeof cert = ''string'') certs then
                  Inl (SIOPError INVALID_JWT
                         (''. '' @ quoted (type_str type) @ '' contains an invalid x5c header.''))
                else Inr (X5cJwtVerifier type certs (iss (payload jwt')))
            | _ \<Rightarrow>
                Inl (SIOPError INVALID_JWT
                       (''. '' @ quoted (type_str type) @ '' contains an invalid x5c header.''))))"

definition getJwkVerifier :: "helpers \<Rightarrow> Jwt \<Rightarrow> JwtType \<Rightarrow> JwtVerifier result" where
  "getJwkVerifier H jwt' type =
     (if \<not> truthy (jwk (header jwt')) then
        Inl (SIOPError INVALID_JWT '' Missing jwk header.'')
      else if typeof (jwk (header jwt')) \<noteq> ''object'' then
        Inl (SIOPError INVALID_JWT
               ('' '' @ quoted (type_str type) @ '' contains an invalid jwk header.''))
      else if type \<noteq> IdToken then
        Inr (JwkJwtVerifier type (jwk (header jwt')) None)
      else (case sub_jwk (payload jwt') of
              Str jwkThumbPrintUri \<Rightarrow>
                (case getDigestAlgorithmFromJwkThumbprintUri H jwkThumbPrintUri of
                   Inl e \<Rightarrow> Inl e
                 | Inr digestAlgorithm \<Rightarrow>
                     (case calculateJwkThumbprintUri H (jwk (header jwt')) digestAlgorithm of
                        Inl e \<Rightarrow> Inl e
                      | Inr selfComputedJwkThumbPrintUri \<Rightarrow>
                          if selfComputedJwkThumbPrintUri \<noteq> jwkThumbPrintUri then
                            Inl (SIOPError INVALID_JWT
                                   ('' '' @ quoted (type_str type)
                                    @ '' contains an invalid sub_jwk claim.''))
                          else Inr (JwkJwtVerifier type (jwk (header jwt'))
                                      (Some jwkThumbPrintUri))))
            | _ \<Rightarrow>
                Inl (SIOPError INVALID_JWT
                       ('' '' @ quoted (type_str type) @ '' missing sub_jwk claim.''))))"

definition getJwtVerifierWithContext :: "helpers \<Rightarrow> Jwt \<Rightarrow> JwtType \<Rightarrow> JwtVerifier result" where
  "getJwtVerifierWithContext H jwt' type =
     (if (case kid (header jwt') of None \<Rightarrow> False | Some k \<Rightarrow> prefix ''did:'' k) then
        getDidJwtVerifier jwt' type
      else if truthy (x5c (header jwt')) then getX5cVerifier jwt' type
      else if truthy (jwk (header jwt')) then getJwkVerifier H jwt' type
      else Inr (CustomJwtVerifier type))"

text \<open>
  The \<open>verifier_attestation\<close> branch of \<open>getRequestObjectJwtVerifier\<close>, once the nested token
  is parsed.  The first condition is a chain of \<open>||\<close>, evaluated left to right: its last
  operand reads \<open>cnf['jwk']\<close>, and is reached only when \<open>typeof cnf\<close> is \<open>'object'\<close>.
\<close>

definition verifierAttestationSubtype :: string where
  "verifierAttestationSubtype = ''verifier-attestation+jwt''"

definition attestationClaimsBad :: "Jwt \<Rightarrow> string option \<Rightarrow> bool result" where
  "attestationClaimsBad att clientId =
     (if typ' (header att) \<noteq> Str verifierAttestationSubtype
         \<or> sub (payload att) \<noteq> of_opt clientId
         \<or> \<not> truthy (iss (payload att))
         \<or> typeof (iss (payload att)) \<noteq> ''string''
         \<or> \<not> truthy (exp (payload att))
         \<or> typeof (exp (payload att)) \<noteq> ''number''
         \<or> typeof (cnf (payload att)) \<noteq> ''object''
      then Inr True
      else (case get_prop (cnf (payload att)) ''jwk'' of
              Inl e \<Rightarrow> Inl e
            | Inr j \<Rightarrow> Inr (typeof j \<noteq> ''object'')))"

definition attestationRedirectUrisBad :: "Jwt \<Rightarrow> jsval \<Rightarrow> bool" where
  "attestationRedirectUrisBad att redirectUri =
     (case redirect_uris (payload att) of
        Arr uris \<Rightarrow>
          list_ex (\<lambda>value. typeof value \<noteq> ''string'') uris
          \<or> \<not> truthy redirectUri
          \<or> redirectUri \<notin> set uris
      | _ \<Rightarrow> True)"

definition verifierAttestation :: "helpers \<Rightarrow> Jwt \<Rightarrow> JwtVerifier result" where
  "verifierAttestation H jwt' =
     (case jwt (header jwt') of
        None \<Rightarrow> Inl (SIOPError MISSING_ATTESTATION_JWT [])
      | Some attestationJwt \<Rightarrow>
          if attestationJwt = [] then Inl (SIOPError MISSING_ATTESTATION_JWT [])
          else if typ' (header jwt') \<noteq> Str verifierAttestationSubtype then
            Inl (SIOPError MISSING_ATTESTATION_JWT_TYP [])
          else (case parseJWT H attestationJwt of
                  Inl e \<Rightarrow> Inl e
                | Inr att \<Rightarrow>
                    (case attestationClaimsBad att (client_id (payload jwt')) of
                       Inl e \<Rightarrow> Inl e
                     | Inr True \<Rightarrow> Inl (SIOPError BAD_VERIFIER_ATTESTATION [])
                     | Inr False \<Rightarrow>
                         if truthy (redirect_uris (payload att))
                            \<and> attestationRedirectUrisBad att (redirect_uri (payload jwt'))
                         then Inl (SIOPError BAD_VERIFIER_ATTESTATION_REDIRECT_URIS [])
                         else (case get_prop (cnf (payload att)) ''jwk'' of
                                 Inl e \<Rightarrow> Inl e
                               | Inr j \<Rightarrow> Inr (JwkJwtVerifier RequestObject j None)))))"

definition getRequestObjectJwtVerifier :: "helpers \<Rightarrow> Jwt \<Rightarrow> string \<Rightarrow> JwtVerifier result" where
  "getRequestObjectJwtVerifier H jwt' raw =
     (let type = RequestObject;
          clientIdScheme = client_id_scheme (payload jwt');
          clientId = client_id (payload jwt')
      in if \<not> truthy clientIdScheme then getJwtVerifierWithContext H jwt' type
         else if clientIdScheme = Str ''did'' then getDidJwtVerifier jwt' type
         else if clientIdScheme = Str ''pre-registered'' then
           getJwtVerifierWithContext H jwt' type
         else if clientIdScheme = Str ''x509_san_dns'' \<or> clientIdScheme = Str ''x509_san_uri''
         then getX5cVerifier jwt' type
         else if clientIdScheme = Str ''redirect_uri'' then
           (if truthy (redirect_uri (payload jwt'))
               \<and> redirect_uri (payload jwt') \<noteq> of_opt clientId
            then Inl (SIOPError INVALID_CLIENT_ID_MUST_MATCH_REDIRECT_URI [])
            else if length (split raw ''.'') > 2 then
              Inl (SIOPError INVALID_JWT
                     ('' '' @ quoted (type_str type) @ '' JWT must not not be signed.''))
            else getJwtVerifierWithContext H jwt' type)
         else if clientIdScheme = Str ''verifier_attestation'' then verifierAttestation H jwt'
         else if clientIdScheme = Str ''entity_id'' then
           (case clientId of
              None \<Rightarrow> Inl TypeError
            | Some c \<Rightarrow>
                if \<not> prefix ''http'' c then
                  Inl (SIOPError INVALID_REQUEST_OBJECT_ENTITY_ID_SCHEME_CLIENT_ID [])
                else Inr (OpenIdFederationJwtVerifier type c))
         else Inl (SIOPError INVALID_CLIENT_ID_SCHEME []))"

text \<open>
  Names for what the statements below speak of: two of the messages, the errors built
  from \<open>INVALID_JWT\<close>, and the two conditions of the \<open>verifier_attestation\<close> branch as the
  code decides them (a string or number that is not falsy, \<open>typeof\<close> for the objects).
\<close>

definition thumbprintMismatch :: js_error where
  "thumbprintMismatch =
     SIOPError INVALID_JWT ('' '' @ quoted ''id-token'' @ '' contains an invalid sub_jwk claim.'')"

definition mustNotBeSigned :: js_error where
  "mustNotBeSigned =
     SIOPError INVALID_JWT ('' '' @ quoted ''request-object'' @ '' JWT must not not be signed.'')"

definition invalidJwt :: "js_error \<Rightarrow> bool" where
  "invalidJwt e = (case e of SIOPError c msg \<Rightarrow> c = INVALID_JWT | _ \<Rightarrow> False)"

definition attestationClaimsOk :: "Jwt \<Rightarrow> string option \<Rightarrow> bool" where
  "attestationClaimsOk att clientId =
     (typ' (header att) = Str ''verifier-attestation+jwt''
      \<and> sub (payload att) = of_opt clientId
      \<and> (\<exists>s. iss (payload att) = Str s \<and> s \<noteq> [])
      \<and> (\<exists>n. exp (payload att) = Num n \<and> n \<noteq> 0)
      \<and> typeof (cnf (payload att)) = ''object''
      \<and> typeof (opt_get (cnf (payload att)) ''jwk'') = ''object'')"

definition redirectUriAllowed :: "Jwt \<Rightarrow> jsval \<Rightarrow> bool" where
  "redirectUriAllowed att redirectUri =
     (\<exists>uris. redirect_uris (payload att) = Arr uris
        \<and> list_all (\<lambda>u. typeof u = ''string'') uris
        \<and> truthy redirectUri
        \<and> redirectUri \<in> set uris)"

text \<open>
  Concrete tokens, and stand-ins for the three helper functions, used where a statement is
  evaluated: the digest algorithm and the thumbprint are fixed, and parsing the nested
  token gives the attestation handed to \<open>example_helpers\<close>.
\<close>

definition empty_header :: JwtHeader where
  "empty_header = \<lparr>kid = None, typ' = Undefined, x5c = Undefined, jwk = Undefined, jwt = None\<rparr>"

definition empty_payload :: JwtPayload where
  "empty_payload =
     \<lparr>iss = Undefined, sub = Undefined, exp = Undefined, cnf = Undefined, sub_jwk = Undefined,
      redirect_uris = Undefined, client_id_scheme = Undefined, client_id = None,
      redirect_uri = Undefined\<rparr>"

definition example_thumbprint :: string where
  "example_thumbprint =
     ''urn:ietf:params:oauth:jwk-thumbprint:sha-256:NzbLsXh8uDCcd-6MNwXF4W_7noWXFZAfHkxZsRGC9Xs''"

definition example_jwk :: jsval where
  "example_jwk = Obj [(''kty'', Str ''EC''), (''crv'', Str ''P-256'')]"

definition example_attestation :: Jwt where
  "example_attestation =
     \<lparr>header = empty_header\<lparr>typ' := Str ''verifier-attestation+jwt''\<rparr>,
      payload = empty_payload\<lparr>iss := Str ''https://attester.example'',
                  sub := Str ''https://verifier.example'', exp := Num 1900000000,
                  cnf := Obj [(''jwk'', example_jwk)]\<rparr>\<rparr>"

definition example_helpers :: "Jwt \<Rightarrow> helpers" where
  "example_helpers att =
     \<lparr>getDigestAlgorithmFromJwkThumbprintUri = (\<lambda>uri. Inr ''sha256''),
      calculateJwkThumbprintUri = (\<lambda>key alg. Inr example_thumbprint),
      parseJWT = (\<lambda>token. Inr att)\<rparr>"

definition example_request_object :: Jwt where
  "example_request_object =
     \<lparr>header = empty_header\<lparr>typ' := Str ''verifier-attestation+jwt'',
                                 jwt := Some ''eyJ0eXAi.eyJpc3Mi.c2ln''\<rparr>,
      payload = empty_payload\<lparr>client_id_scheme := Str ''verifier_attestation'',
                                  client_id := Some ''https://verifier.example''\<rparr>\<rparr>"

section \<open>CredentialRequestUtil: the request of an older draft\<close>

text \<open>
  A \<open>UniformCredentialRequest\<close> is a union discriminated by \<open>format\<close>: the JWT formats carry
  \<open>types\<close>, the linked-data formats and \<open>vc+sd-jwt\<close> a \<open>credential_definition\<close>.  The record
  has the members the code reads; \<open>types\<close> of the definition is \<open>definition_types\<close>, and the
  members \<open>proof\<close>, \<open>format\<close> and \<open>type\<close> of the draft-8 request carry a prime or a suffix.
\<close>

record CredentialDefinition =
  definition_types :: "string list option"
  vct :: string

record UniformCredentialRequest =
  format :: string
  types :: "string list option"
  credential_definition :: "CredentialDefinition option"
  proof' :: jsval

record CredentialRequestV1_0_08 =
  format_08 :: string
  proof_08 :: jsval
  type_08 :: "string option"

text \<open>The enumeration \<open>OpenId4VCIVersion\<close> is declared in \<open>../types\<close>; the code only asks
  whether the version is \<open>VER_1_0_08\<close>.\<close>

datatype OpenId4VCIVersion = VER_1_0_08 | VER_LATER

text \<open>
  \<open>opts\<close> is the optional flag \<open>filterVerifiableCredential\<close>.  Reading a member of an
  absent \<open>credential_definition\<close> throws a \<open>TypeError\<close>.
\<close>

definition getTypesFromRequest ::
  "UniformCredentialRequest \<Rightarrow> bool option \<Rightarrow> string list result"
where
  "getTypesFromRequest credentialRequest opts =
     (case (if format credentialRequest = ''jwt_vc_json'' \<or> format credentialRequest = ''jwt_vc''
            then Inr (types credentialRequest)
            else if format credentialRequest = ''jwt_vc_json-ld''
                    \<or> format credentialRequest = ''ldp_vc''
            then (case credential_definition credentialRequest of
                    None \<Rightarrow> Inl TypeError
                  | Some d \<Rightarrow> Inr (definition_types d))
            else if format credentialRequest = ''vc+sd-jwt''
            then (case credential_definition credentialRequest of
                    None \<Rightarrow> Inl TypeError
                  | Some d \<Rightarrow> Inr (Some [vct d]))
            else Inr (Some [])) of
        Inl e \<Rightarrow> Inl e
      | Inr None \<Rightarrow> Inl (Error ''Could not deduce types from credential request'')
      | Inr (Some ts) \<Rightarrow>
          if length ts = 0 then Inl (Error ''Could not deduce types from credential request'')
          else if opts = Some True then
            Inr (filter (\<lambda>type. type \<noteq> ''VerifiableCredential'') ts)
          else Inr ts)"

text \<open>\<open>getFormatForVersion\<close> comes from \<open>./FormatUtils\<close>, which is not among the files at
  hand: it is a parameter, and it may throw.\<close>

definition getCredentialRequestForVersion ::
  "(string \<Rightarrow> OpenId4VCIVersion \<Rightarrow> string result) \<Rightarrow> UniformCredentialRequest
   \<Rightarrow> OpenId4VCIVersion \<Rightarrow> (UniformCredentialRequest + CredentialRequestV1_0_08) result"
where
  "getCredentialRequestForVersion getFormatForVersion credentialRequest version =
     (if version = VER_1_0_08 then
        (case getFormatForVersion (format credentialRequest) version of
           Inl e \<Rightarrow> Inl e
         | Inr draft8Format \<Rightarrow>
             (case getTypesFromRequest credentialRequest (Some True) of
                Inl e \<Rightarrow> Inl e
              | Inr ts \<Rightarrow>
                  Inr (Inr \<lparr>format_08 = draft8Format,
                            proof_08 = proof' credentialRequest,
                            type_08 = at_index ts 0\<rparr>)))
      else Inr (Inl credentialRequest))"

text \<open>A stand-in for \<open>getFormatForVersion\<close> and a request, used where a statement is
  evaluated.\<close>

definition example_format_for_version :: "string \<Rightarrow> OpenId4VCIVersion \<Rightarrow> string result" where
  "example_format_for_version f v = (if f = ''jwt_vc_json'' \<and> v = VER_1_0_08 then Inr ''jwt_vc'' else Inr f)"

definition example_request :: UniformCredentialRequest where
  "example_request =
     \<lparr>format = ''jwt_vc_json'', types = Some [''VerifiableCredential''],
      credential_definition = None, proof' = Obj [(''proof_type'', Str ''jwt'')]\<rparr>"

section \<open>The credential offer sessions\<close>

text \<open>
  A session, with the members the sources read: the time of creation in milliseconds
  (\<open>createdAt\<close>) and the offer it was created for.
\<close>

record CredentialOfferSession =
  createdAt :: int
  offer :: jsval

text \<open>
  \<open>isPreAuthorizedCodeExpired\<close> of \<open>CredentialOfferUtils\<close>; \<open>now\<close> is what \<open>+new Date()\<close>
  reads.
\<close>

definition isPreAuthorizedCodeExpired :: "int \<Rightarrow> CredentialOfferSession \<Rightarrow> int \<Rightarrow> bool" where
  "isPreAuthorizedCodeExpired now state expirationDurationInSeconds =
     (let expirationTime = createdAt state + expirationDurationInSeconds * 1000
      in now \<ge> expirationTime)"

text \<open>
  Modelled from the spec: the class \<open>MemoryCredentialOfferStateManager\<close> is not among the
  files at hand (only its test is).  Section 4.4 of the spec gives its contract: a store
  keyed by a string, \<open>setState\<close> inserts or replaces, \<open>getState\<close> returns the session or
  nothing, \<open>hasState\<close> tells whether there is one, \<open>deleteState\<close> removes it and tells
  whether there was one, \<open>clearExpiredStates(now)\<close> removes every entry whose
  \<open>created_at + ttl <= now\<close> in one sweep over the entries, \<open>clearAllStates\<close> empties the
  store.  The store is the list of its entries in insertion order, with the \<open>ttl\<close> in
  milliseconds.
\<close>

record MemoryCredentialOfferStateManager =
  ttl :: int
  states :: "(string \<times> CredentialOfferSession) list"

text \<open>Modelled from the spec: \<open>setState(id, session)\<close> of the missing class inserts or
  replaces, and keeps the \<open>created_at\<close> the session brings.\<close>

definition setState ::
  "string \<Rightarrow> CredentialOfferSession \<Rightarrow> MemoryCredentialOfferStateManager
   \<Rightarrow> MemoryCredentialOfferStateManager"
where
  "setState k session m = m\<lparr>states := AList.update k session (states m)\<rparr>"

text \<open>Modelled from the spec: \<open>getState(id)\<close> of the missing class gives the session or
  nothing.\<close>

definition getState :: "string \<Rightarrow> MemoryCredentialOfferStateManager \<Rightarrow> CredentialOfferSession option"
where
  "getState k m = map_of (states m) k"

text \<open>Modelled from the spec: \<open>hasState(id)\<close> of the missing class.\<close>

definition hasState :: "string \<Rightarrow> MemoryCredentialOfferStateManager \<Rightarrow> bool" where
  "hasState k m = (getState k m \<noteq> None)"

text \<open>Modelled from the spec: \<open>deleteState(id)\<close> of the missing class is true iff an entry
  existed, and removes it.\<close>

definition deleteState ::
  "string \<Rightarrow> MemoryCredentialOfferStateManager \<Rightarrow> bool \<times> MemoryCredentialOfferStateManager"
where
  "deleteState k m = (hasState k m, m\<lparr>states := AList.delete k (states m)\<rparr>)"

text \<open>Modelled from the spec: the sweep of \<open>clearExpiredStates\<close> of the missing class.  It
  goes through the entries the store had when it started, and deletes from the store the
  key of each entry whose \<open>created_at + ttl <= now\<close>.\<close>

fun sweep ::
  "int \<Rightarrow> int \<Rightarrow> (string \<times> CredentialOfferSession) list
   \<Rightarrow> (string \<times> CredentialOfferSession) list \<Rightarrow> (string \<times> CredentialOfferSession) list"
where
  "sweep t now [] st = st"
| "sweep t now ((k, s) # entries) st =
     sweep t now entries (if createdAt s + t \<le> now then AList.delete k st else st)"

text \<open>Modelled from the spec: \<open>clearExpiredStates(now)\<close> of the missing class.\<close>

definition clearExpiredStates ::
  "int \<Rightarrow> MemoryCredentialOfferStateManager \<Rightarrow> MemoryCredentialOfferStateManager"
where
  "clearExpiredStates now m = m\<lparr>states := sweep (ttl m) now (states m) (states m)\<rparr>"

text \<open>Modelled from the spec: \<open>clearAllStates()\<close> of the missing class.\<close>

definition clearAllStates :: "MemoryCredentialOfferStateManager \<Rightarrow> MemoryCredentialOfferStateManager"
where
  "clearAllStates m = m\<lparr>states := []\<rparr>"

text \<open>A store never holds a key twice.\<close>

definition store_ok :: "MemoryCredentialOfferStateManager \<Rightarrow> bool" where
  "store_ok m = distinct (map fst (states m))"

text \<open>The store of the test: three sessions created a day before, at, and a day after
  a time \<open>t0\<close>.\<close>

definition test_session :: "int \<Rightarrow> CredentialOfferSession" where
  "test_session t =
     \<lparr>createdAt = t,
      offer = Obj [(''credential_offer'',
                    Obj [(''credential_issuer'', Str ''test''),
                         (''credentials'', Arr [Str ''test''])])]\<rparr>"

definition test_store :: "int \<Rightarrow> int \<Rightarrow> MemoryCredentialOfferStateManager" where
  "test_store t t0 =
     setState ''2'' (test_session (t0 + 86400000))
       (setState ''1'' (test_session t0)
          (setState ''0'' (test_session (t0 - 86400000)) \<lparr>ttl = t, states = []\<rparr>))"

section \<open>Transaction codes\<close>

lemma assertValidPinNumber_accepts_iff:
  "assertValidPinNumber (Some pin) = Inr () \<longleftrightarrow> pin = [] \<or> (\<exists>c \<in> set pin. pin_class c)"
  by (simp add: assertValidPinNumber_def pin_regex_test_def list_ex_iff)

text \<open>
  Claim C4.  The claim has \<open>assertValidPinNumber\<close> accept a supplied transaction code exactly
  when it is a string of at most eight digits.  The code accepts the nine digits
  \<open>123456789\<close> and the string \<open>a1\<close>, neither of which is such a string: one character of
  the class anywhere in the string is enough for it.
\<close>

theorem assertValidPinNumber_accepts_nine_digits:
  "assertValidPinNumber (Some ''123456789'') = Inr () \<and> \<not> digits_upto_8 ''123456789''
   \<and> assertValidPinNumber (Some ''a1'') = Inr () \<and> \<not> digits_upto_8 ''a1''"
  by (simp add: assertValidPinNumber_def pin_regex_test_def pin_class_def digits_upto_8_def)

section \<open>The grants of a built offer\<close>

lemma createCredentialOfferObject_grants:
  assumes "createCredentialOfferObject md opts u1 u2 = Inr r"
  shows "\<exists>p. r_grants r = grants (setGrants opts u2 (setGrants opts u1 p))
    \<and> credential_offer r = setGrants opts u2 (setGrants opts u1 p)
    \<and> (case grants p of None \<Rightarrow> [] | Some g \<Rightarrow> g) = supplied_grants opts"
  using assms
  by (auto simp: createCredentialOfferObject_def supplied_grants_def Let_def
           split: if_splits sum.splits option.splits)

lemma setGrants_pre:
  assumes "truthy_str (preAuthorizedCode opts)"
  shows "grants (setGrants opts u p) =
     Some (AList.update PRE_AUTH_GRANT (preAuthorizedGrant opts)
        (case grants p of None \<Rightarrow> [] | Some g \<Rightarrow> g))"
  using assms by (auto simp: setGrants_def preAuthorizedGrant_def Let_def split: option.splits)

lemma setGrants_auth:
  assumes "\<not> truthy_str (preAuthorizedCode opts)"
  shows "grants (setGrants opts u p) =
     (let g = (case grants p of None \<Rightarrow> [] | Some g \<Rightarrow> g) in
      if truthy (opt_get (grant_get g ''authorization_code'') ''issuer_state'') then Some g
      else Some (authorizationCodeGrant opts u))"
  using assms by (auto simp: setGrants_def authorizationCodeGrant_def Let_def split: option.splits)


lemmas offer_defs = createCredentialOfferObject_def offerScheme_def offerBaseUri_def setGrants_def
  str_replace_def str_includes_def grant_get_def mk_obj_def PRE_AUTH_GRANT_def Let_def

lemma setGrants_twice_pre:
  assumes "truthy_str (preAuthorizedCode opts)"
  shows "grants (setGrants opts u2 (setGrants opts u1 p)) =
     Some (AList.update PRE_AUTH_GRANT (preAuthorizedGrant opts)
        (case grants p of None \<Rightarrow> [] | Some g \<Rightarrow> g))"
  by (simp add: setGrants_pre [OF assms] AList.update_last)

lemma issuer_state_of_authorizationCodeGrant:
  "truthy (opt_get (grant_get (authorizationCodeGrant opts u) ''authorization_code'') ''issuer_state'')
   \<longleftrightarrow> (case issuerState opts of None \<Rightarrow> u | Some s \<Rightarrow> s) \<noteq> []"
  by (simp add: authorizationCodeGrant_def grant_get_def)

lemma authorizationCodeGrant_again:
  "(if (case issuerState opts of None \<Rightarrow> u1 | Some s \<Rightarrow> s) \<noteq> []
    then authorizationCodeGrant opts u1 else authorizationCodeGrant opts u2)
   = authorizationCodeGrant opts (if u1 = [] then u2 else u1)"
  by (cases "issuerState opts") (simp_all add: authorizationCodeGrant_def)

lemma setGrants_twice_auth:
  assumes "\<not> truthy_str (preAuthorizedCode opts)"
  shows "grants (setGrants opts u2 (setGrants opts u1 p)) =
     (if truthy (opt_get (grant_get (case grants p of None \<Rightarrow> [] | Some g \<Rightarrow> g)
                    ''authorization_code'') ''issuer_state'')
      then Some (case grants p of None \<Rightarrow> [] | Some g \<Rightarrow> g)
      else Some (authorizationCodeGrant opts (if u1 = [] then u2 else u1)))"
proof (cases "truthy (opt_get (grant_get (case grants p of None \<Rightarrow> [] | Some g \<Rightarrow> g)
                    ''authorization_code'') ''issuer_state'')")
  case True
  have 1: "grants (setGrants opts u1 p) = Some (case grants p of None \<Rightarrow> [] | Some g \<Rightarrow> g)"
    unfolding setGrants_auth [OF assms] Let_def using True by (simp only: if_True)
  have "grants (setGrants opts u2 (setGrants opts u1 p))
        = Some (case grants p of None \<Rightarrow> [] | Some g \<Rightarrow> g)"
    unfolding setGrants_auth [OF assms, of u2 "setGrants opts u1 p"] 1 Let_def option.case
    using True by (simp only: if_True)
  with True show ?thesis by (simp only: if_True)
next
  case False
  have 1: "grants (setGrants opts u1 p) = Some (authorizationCodeGrant opts u1)"
    unfolding setGrants_auth [OF assms] Let_def using False by (simp only: if_False)
  have "grants (setGrants opts u2 (setGrants opts u1 p)) =
        Some (if (case issuerState opts of None \<Rightarrow> u1 | Some s \<Rightarrow> s) \<noteq> []
         then authorizationCodeGrant opts u1 else authorizationCodeGrant opts u2)"
    unfolding setGrants_auth [OF assms, of u2 "setGrants opts u1 p"] 1 Let_def option.case
      issuer_state_of_authorizationCodeGrant
    by (rule if_distrib [symmetric])
  then have "grants (setGrants opts u2 (setGrants opts u1 p)) =
        Some (authorizationCodeGrant opts (if u1 = [] then u2 else u1))"
    by (simp only: authorizationCodeGrant_again)
  with False show ?thesis by (simp only: if_False)
qed

text \<open>
  Claim C3, as the code has it.  When \<open>createCredentialOfferObject\<close> returns, the grants it
  returns are those of the payload it returns, and:
  with a pre-authorized code that is not empty, the entry of the pre-authorized-code grant is
  the new grant and every other entry of the supplied grants is as it was;
  without one, if the supplied grants hold an \<open>authorization_code.issuer_state\<close> that is not
  empty, the grants are the supplied ones unchanged;
  without one and without such an \<open>issuer_state\<close>, the grants are replaced as a whole by the
  single entry \<open>authorization_code\<close>, whose \<open>issuer_state\<close> is the option \<open>issuerState\<close> or a
  generated identifier, so that every other supplied entry is dropped.
\<close>

theorem createCredentialOfferObject_grants_frame:
  assumes "createCredentialOfferObject md opts u1 u2 = Inr r"
  shows "r_grants r = grants (credential_offer r)
    \<and> (truthy_str (preAuthorizedCode opts) \<longrightarrow>
         (\<exists>g. r_grants r = Some g
            \<and> map_of g PRE_AUTH_GRANT = Some (preAuthorizedGrant opts)
            \<and> (\<forall>k. k \<noteq> PRE_AUTH_GRANT \<longrightarrow> map_of g k = map_of (supplied_grants opts) k)))
    \<and> (\<not> truthy_str (preAuthorizedCode opts)
        \<and> truthy (opt_get (grant_get (supplied_grants opts) ''authorization_code'') ''issuer_state'')
        \<longrightarrow> r_grants r = Some (supplied_grants opts))
    \<and> (\<not> truthy_str (preAuthorizedCode opts)
        \<and> \<not> truthy (opt_get (grant_get (supplied_grants opts) ''authorization_code'') ''issuer_state'')
        \<longrightarrow> r_grants r = Some (authorizationCodeGrant opts (if u1 = [] then u2 else u1)))"
proof -
  from assms obtain p where
    g: "r_grants r = grants (setGrants opts u2 (setGrants opts u1 p))" and
    c: "credential_offer r = setGrants opts u2 (setGrants opts u1 p)" and
    sg: "(case grants p of None \<Rightarrow> [] | Some g \<Rightarrow> g) = supplied_grants opts"
    using createCredentialOfferObject_grants by blast
  have 1: "r_grants r = grants (credential_offer r)" using g c by simp
  have 2: "\<exists>g. r_grants r = Some g
            \<and> map_of g PRE_AUTH_GRANT = Some (preAuthorizedGrant opts)
            \<and> (\<forall>k. k \<noteq> PRE_AUTH_GRANT \<longrightarrow> map_of g k = map_of (supplied_grants opts) k)"
    if "truthy_str (preAuthorizedCode opts)"
    using that by (simp add: g setGrants_twice_pre sg AList.update_conv')
  have 3: "r_grants r = Some (supplied_grants opts)"
    if "\<not> truthy_str (preAuthorizedCode opts)"
       "truthy (opt_get (grant_get (supplied_grants opts) ''authorization_code'') ''issuer_state'')"
    using that(2) by (simp add: g setGrants_twice_auth [OF that(1)] sg)
  have 4: "r_grants r = Some (authorizationCodeGrant opts (if u1 = [] then u2 else u1))"
    if "\<not> truthy_str (preAuthorizedCode opts)"
       "\<not> truthy (opt_get (grant_get (supplied_grants opts) ''authorization_code'') ''issuer_state'')"
    using that(2) by (simp add: g setGrants_twice_auth [OF that(1)] sg)
  from 1 2 3 4 show ?thesis by blast
qed

text \<open>The theorem at a payload that already holds an authorization-code grant, with the
  pre-authorized code \<open>abc\<close>: the authorization-code grant is still there.\<close>

theorem createCredentialOfferObject_grants_frame_witness:
  "createCredentialOfferObject None
      (no_opts\<lparr>credentialOffer := Some offer_with_issuer_state, preAuthorizedCode := Some ''abc''\<rparr>)
      ''uuid-1'' ''uuid-2''
    = Inr \<lparr>credential_offer = offer_with_issuer_state\<lparr>grants :=
             Some [(''authorization_code'', Obj [(''issuer_state'', Str ''s1'')]),
                   (PRE_AUTH_GRANT, Obj [(''pre-authorized_code'', Str ''abc'')])]\<rparr>,
           credential_offer_uri = None, r_scheme = ''openid-credential-offer'', r_baseUri = [],
           r_grants = Some [(''authorization_code'', Obj [(''issuer_state'', Str ''s1'')]),
                   (PRE_AUTH_GRANT, Obj [(''pre-authorized_code'', Str ''abc'')])]\<rparr>
   \<and> grant_get [(''authorization_code'', Obj [(''issuer_state'', Str ''s1'')]),
                   (PRE_AUTH_GRANT, Obj [(''pre-authorized_code'', Str ''abc'')])] ''authorization_code''
       = grant_get (supplied_grants (no_opts\<lparr>credentialOffer := Some offer_with_issuer_state,
            preAuthorizedCode := Some ''abc''\<rparr>)) ''authorization_code''"
  (is "?c = Inr ?R \<and> _")
proof -
  have e: "?c = Inr ?R"
    by (simp add: offer_defs no_opts_def offer_with_issuer_state_def)
  have t: "truthy_str (preAuthorizedCode (no_opts\<lparr>credentialOffer := Some offer_with_issuer_state,
            preAuthorizedCode := Some ''abc''\<rparr>))" by simp
  from createCredentialOfferObject_grants_frame [OF e] t obtain g where g: "r_grants ?R = Some g"
    and f: "\<forall>k. k \<noteq> PRE_AUTH_GRANT \<longrightarrow> map_of g k = map_of (supplied_grants (no_opts\<lparr>credentialOffer := Some offer_with_issuer_state,
            preAuthorizedCode := Some ''abc''\<rparr>)) k"
    by blast
  have ne: "''authorization_code'' \<noteq> PRE_AUTH_GRANT" by (simp add: PRE_AUTH_GRANT_def)
  from f ne have "map_of g ''authorization_code'' = map_of (supplied_grants (no_opts\<lparr>credentialOffer := Some offer_with_issuer_state,
            preAuthorizedCode := Some ''abc''\<rparr>)) ''authorization_code''"
    by blast
  moreover from g have "g = [(''authorization_code'', Obj [(''issuer_state'', Str ''s1'')]),
                   (PRE_AUTH_GRANT, Obj [(''pre-authorized_code'', Str ''abc'')])]" by simp
  ultimately have "grant_get [(''authorization_code'', Obj [(''issuer_state'', Str ''s1'')]),
                   (PRE_AUTH_GRANT, Obj [(''pre-authorized_code'', Str ''abc'')])] ''authorization_code''
       = grant_get (supplied_grants (no_opts\<lparr>credentialOffer := Some offer_with_issuer_state,
            preAuthorizedCode := Some ''abc''\<rparr>)) ''authorization_code''"
    unfolding grant_get_def by (simp only:)
  with e show ?thesis by (rule_tac conjI)
qed

text \<open>
  The claim as it was stated has every other entry left unchanged also when no
  pre-authorized code is supplied.  A payload that holds a pre-authorized-code grant, built
  without the option, comes back with the authorization-code grant alone.
\<close>

theorem createCredentialOfferObject_drops_supplied_pre_authorized:
  "createCredentialOfferObject None (no_opts\<lparr>credentialOffer := Some offer_with_pre_auth\<rparr>)
      ''uuid-1'' ''uuid-2''
   = Inr \<lparr>credential_offer = offer_with_pre_auth\<lparr>grants :=
             Some [(''authorization_code'', Obj [(''issuer_state'', Str ''uuid-1'')])]\<rparr>,
           credential_offer_uri = None, r_scheme = ''openid-credential-offer'', r_baseUri = [],
           r_grants = Some [(''authorization_code'', Obj [(''issuer_state'', Str ''uuid-1'')])]\<rparr>
   \<and> grant_get (supplied_grants (no_opts\<lparr>credentialOffer := Some offer_with_pre_auth\<rparr>))
        PRE_AUTH_GRANT = Obj [(''pre-authorized_code'', Str ''xyz'')]
   \<and> grant_get [(''authorization_code'', Obj [(''issuer_state'', Str ''uuid-1'')])]
        PRE_AUTH_GRANT = Undefined"
  by (simp add: offer_defs no_opts_def offer_with_pre_auth_def supplied_grants_def)

text \<open>
  Claim C7, as the code has it.  With the pre-authorized code \<open>abc\<close> and no \<open>txCode\<close>, and when
  the supplied payload (if any) holds no grant other than a pre-authorized-code one, the
  grants are exactly the single entry
  \<open>urn:ietf:params:oauth:grant-type:pre-authorized_code: { pre-authorized_code: abc }\<close>,
  and there is no authorization-code grant.
\<close>

theorem createCredentialOfferObject_pre_authorized_only:
  assumes "createCredentialOfferObject md opts u1 u2 = Inr r"
    and "preAuthorizedCode opts = Some ''abc''"
    and "txCode opts = Undefined"
    and "supplied_grants opts = [] \<or> (\<exists>v. supplied_grants opts = [(PRE_AUTH_GRANT, v)])"
  shows "r_grants r = Some [(PRE_AUTH_GRANT, Obj [(''pre-authorized_code'', Str ''abc'')])]
    \<and> grants (credential_offer r) = r_grants r
    \<and> grant_get [(PRE_AUTH_GRANT, Obj [(''pre-authorized_code'', Str ''abc'')])] ''authorization_code''
        = Undefined"
proof -
  from assms(1) obtain p where
    g: "r_grants r = grants (setGrants opts u2 (setGrants opts u1 p))" and
    c: "credential_offer r = setGrants opts u2 (setGrants opts u1 p)" and
    sg: "(case grants p of None \<Rightarrow> [] | Some g \<Rightarrow> g) = supplied_grants opts"
    using createCredentialOfferObject_grants by blast
  have t: "truthy_str (preAuthorizedCode opts)" using assms(2) by simp
  have v: "preAuthorizedGrant opts = Obj [(''pre-authorized_code'', Str ''abc'')]"
    using assms(2,3) by (simp add: preAuthorizedGrant_def mk_obj_def)
  have "r_grants r = Some (AList.update PRE_AUTH_GRANT (preAuthorizedGrant opts) (supplied_grants opts))"
    by (simp add: g setGrants_twice_pre [OF t] sg)
  with assms(4) v have "r_grants r = Some [(PRE_AUTH_GRANT, Obj [(''pre-authorized_code'', Str ''abc'')])]"
    by auto
  moreover have "grants (credential_offer r) = r_grants r" using g c by simp
  ultimately show ?thesis by (simp add: grant_get_def PRE_AUTH_GRANT_def)
qed

text \<open>The theorem for an offer built from issuer metadata with the one option.\<close>

theorem createCredentialOfferObject_pre_authorized_only_witness:
  "createCredentialOfferObject (Some example_metadata) (no_opts\<lparr>preAuthorizedCode := Some ''abc''\<rparr>)
      ''uuid-1'' ''uuid-2''
   = Inr \<lparr>credential_offer = \<lparr>credential_issuer = Some ''https://issuer.example'',
      credential_configuration_ids = [''UniversityDegree''],
      grants = Some [(PRE_AUTH_GRANT, Obj [(''pre-authorized_code'', Str ''abc'')])]\<rparr>,
           credential_offer_uri = None, r_scheme = ''openid-credential-offer'', r_baseUri = [],
           r_grants = Some [(PRE_AUTH_GRANT, Obj [(''pre-authorized_code'', Str ''abc'')])]\<rparr>
   \<and> supplied_grants (no_opts\<lparr>preAuthorizedCode := Some ''abc''\<rparr>) = []
   \<and> grant_get [(PRE_AUTH_GRANT, Obj [(''pre-authorized_code'', Str ''abc'')])]
        ''authorization_code'' = Undefined"
  (is "?c = Inr ?R \<and> _")
proof -
  have e: "?c = Inr ?R"
    by (simp add: offer_defs no_opts_def example_metadata_def)
  have s: "supplied_grants (no_opts\<lparr>preAuthorizedCode := Some ''abc''\<rparr>) = []"
    by (simp add: supplied_grants_def no_opts_def)
  have p: "preAuthorizedCode (no_opts\<lparr>preAuthorizedCode := Some ''abc''\<rparr>) = Some ''abc''"
    and t: "txCode (no_opts\<lparr>preAuthorizedCode := Some ''abc''\<rparr>) = Undefined"
    by (simp_all add: no_opts_def)
  from createCredentialOfferObject_pre_authorized_only [OF e p t disjI1 [OF s]]
  have "grant_get [(PRE_AUTH_GRANT, Obj [(''pre-authorized_code'', Str ''abc'')])]
        ''authorization_code'' = Undefined"
    by (elim conjE)
  with e s show ?thesis by (intro conjI)
qed

text \<open>
  The claim as it was stated puts no condition on the supplied payload.  With a payload
  that holds an authorization-code grant, the grants have two entries.
\<close>

theorem createCredentialOfferObject_keeps_supplied_issuer_state:
  "createCredentialOfferObject None
      (no_opts\<lparr>credentialOffer := Some offer_with_issuer_state, preAuthorizedCode := Some ''abc''\<rparr>)
      ''uuid-1'' ''uuid-2''
   = Inr \<lparr>credential_offer = offer_with_issuer_state\<lparr>grants :=
             Some [(''authorization_code'', Obj [(''issuer_state'', Str ''s1'')]),
                   (PRE_AUTH_GRANT, Obj [(''pre-authorized_code'', Str ''abc'')])]\<rparr>,
           credential_offer_uri = None, r_scheme = ''openid-credential-offer'', r_baseUri = [],
           r_grants = Some [(''authorization_code'', Obj [(''issuer_state'', Str ''s1'')]),
                   (PRE_AUTH_GRANT, Obj [(''pre-authorized_code'', Str ''abc'')])]\<rparr>"
  by (simp add: offer_defs no_opts_def offer_with_issuer_state_def)

section \<open>Resolution of the trust method\<close>

lemma split_first_char:
  "split_first [c] s =
     (if c \<in> set s then Some (takeWhile (\<lambda>x. x \<noteq> c) s, tl (dropWhile (\<lambda>x. x \<noteq> c) s)) else None)"
  by (induction s) auto

lemma length_split_char: "length (split s [c]) = Suc (count_list s c)"
proof (induction s "[c]" rule: split.induct)
  case (1 s)
  show ?case
  proof (cases "c \<in> set s")
    case False
    then show ?thesis by (simp add: split.simps [of s] split_first_char)
  next
    case True
    let ?a = "takeWhile (\<lambda>x. x \<noteq> c) s" and ?b = "tl (dropWhile (\<lambda>x. x \<noteq> c) s)"
    have sf: "split_first [c] s = Some (?a, ?b)" using True by (simp add: split_first_char)
    from 1 [OF _ sf] have ih: "length (split ?b [c]) = Suc (count_list ?b c)" by simp
    have "dropWhile (\<lambda>x. x \<noteq> c) s \<noteq> []" using True by simp
    moreover have "hd (dropWhile (\<lambda>x. x \<noteq> c) s) = c"
      using True hd_dropWhile [of "\<lambda>x. x \<noteq> c" s] by auto
    ultimately have d: "dropWhile (\<lambda>x. x \<noteq> c) s = c # ?b" by (cases "dropWhile (\<lambda>x. x \<noteq> c) s") auto
    have "s = ?a @ c # ?b" using d takeWhile_dropWhile_id [of "\<lambda>x. x \<noteq> c" s] by simp
    then have "count_list s c = count_list (?a @ c # ?b) c" by simp
    also have "\<dots> = count_list ?a c + Suc (count_list ?b c)" by simp
    also have "count_list ?a c = 0"
      using set_takeWhileD [of c "\<lambda>x. x \<noteq> c" s] by (auto simp: count_list_0_iff)
    finally have "count_list s c = Suc (count_list ?b c)" by simp
    with ih sf show ?thesis by (simp add: split.simps [of s])
  qed
qed


lemma split_two_dots: "split ''e30.e30'' ''.'' = [''e30'', ''e30'']"
  by (simp add: split.simps [of "''e30.e30''"] split.simps [of "''e30''"])

lemma typeof_string_iff: "typeof v = ''string'' \<longleftrightarrow> (\<exists>s. v = Str s)"
  by (cases v) auto

lemma typeof_number_iff: "typeof v = ''number'' \<longleftrightarrow> (\<exists>n. v = Num n)"
  by (cases v) auto

lemma get_prop_not_null:
  "typeof v = ''object'' \<Longrightarrow> v \<noteq> Null \<Longrightarrow> get_prop v k = Inr (opt_get v k)"
  by (cases v) auto

lemma attestationClaimsBad_iff:
  assumes "cnf (payload att) \<noteq> Null"
  shows "attestationClaimsBad att clientId = Inr (\<not> attestationClaimsOk att clientId)"
proof (cases "typeof (cnf (payload att)) = ''object''")
  case True
  with assms have "get_prop (cnf (payload att)) ''jwk'' = Inr (opt_get (cnf (payload att)) ''jwk'')"
    by (simp add: get_prop_not_null)
  with True show ?thesis
    unfolding attestationClaimsBad_def attestationClaimsOk_def verifierAttestationSubtype_def
    by (cases "iss (payload att)"; cases "exp (payload att)") auto
next
  case False
  then show ?thesis
    unfolding attestationClaimsBad_def attestationClaimsOk_def by simp
qed

lemma attestationRedirectUrisBad_iff:
  "attestationRedirectUrisBad att r \<longleftrightarrow> \<not> redirectUriAllowed att r"
  unfolding attestationRedirectUrisBad_def redirectUriAllowed_def
  by (cases "redirect_uris (payload att)")
     (auto simp: list_ex_iff list_all_iff)

lemmas attestation_defs = getRequestObjectJwtVerifier_def verifierAttestation_def
  attestationClaimsBad_def attestationRedirectUrisBad_def verifierAttestationSubtype_def
  example_request_object_def example_attestation_def example_helpers_def example_jwk_def
  empty_header_def empty_payload_def

text \<open>
  Claim C1.  For an id-token whose \<open>jwk\<close> header is an object, \<open>getJwkVerifier\<close> succeeds
  exactly when the payload has a string \<open>sub_jwk\<close>, a digest algorithm is derived from it and
  the thumbprint computed over the \<open>jwk\<close> with that algorithm equals \<open>sub_jwk\<close>; when the
  computed thumbprint differs, it fails with the message of the invalid \<open>sub_jwk\<close> claim; and
  a verifier it returns is the \<open>jwk\<close> verifier whose \<open>jwkThumbprint\<close> is \<open>sub_jwk\<close>.  The two
  helper functions are arbitrary.
\<close>

theorem getJwkVerifier_id_token_thumbprint:
  assumes "truthy (jwk (header j))" and "typeof (jwk (header j)) = ''object''"
  shows "((\<exists>v. getJwkVerifier H j IdToken = Inr v) \<longleftrightarrow>
            (\<exists>s alg. sub_jwk (payload j) = Str s
               \<and> getDigestAlgorithmFromJwkThumbprintUri H s = Inr alg
               \<and> calculateJwkThumbprintUri H (jwk (header j)) alg = Inr s))
    \<and> (\<forall>s alg t. sub_jwk (payload j) = Str s
               \<and> getDigestAlgorithmFromJwkThumbprintUri H s = Inr alg
               \<and> calculateJwkThumbprintUri H (jwk (header j)) alg = Inr t \<and> t \<noteq> s
          \<longrightarrow> getJwkVerifier H j IdToken = Inl thumbprintMismatch)
    \<and> (\<forall>v. getJwkVerifier H j IdToken = Inr v \<longrightarrow>
          (\<exists>s. sub_jwk (payload j) = Str s
             \<and> v = JwkJwtVerifier IdToken (jwk (header j)) (Some s)))"
  using assms
  by (auto simp: getJwkVerifier_def thumbprintMismatch_def split: jsval.splits sum.splits)

text \<open>The theorem at a token whose \<open>sub_jwk\<close> is the thumbprint the stand-in computes.\<close>

theorem getJwkVerifier_id_token_thumbprint_witness:
  "truthy (jwk (header \<lparr>header = empty_header\<lparr>jwk := example_jwk\<rparr>,
                       payload = empty_payload\<lparr>sub_jwk := Str example_thumbprint\<rparr>\<rparr>))
   \<and> getJwkVerifier (example_helpers example_attestation)
        \<lparr>header = empty_header\<lparr>jwk := example_jwk\<rparr>,
         payload = empty_payload\<lparr>sub_jwk := Str example_thumbprint\<rparr>\<rparr> IdToken
      = Inr (JwkJwtVerifier IdToken example_jwk (Some example_thumbprint))"
  (is "truthy (jwk (header ?j)) \<and> ?r = _")
proof -
  have a: "truthy (jwk (header ?j))" and b: "typeof (jwk (header ?j)) = ''object''"
    by (simp_all add: empty_header_def example_jwk_def)
  have c: "\<exists>s alg. sub_jwk (payload ?j) = Str s
               \<and> getDigestAlgorithmFromJwkThumbprintUri (example_helpers example_attestation) s = Inr alg
               \<and> calculateJwkThumbprintUri (example_helpers example_attestation) (jwk (header ?j)) alg = Inr s"
    by (simp add: example_helpers_def empty_payload_def)
  from getJwkVerifier_id_token_thumbprint [OF a b, of "example_helpers example_attestation"] c
  obtain v where v: "?r = Inr v" by blast
  with getJwkVerifier_id_token_thumbprint [OF a b, of "example_helpers example_attestation"]
  obtain s where "sub_jwk (payload ?j) = Str s" "v = JwkJwtVerifier IdToken (jwk (header ?j)) (Some s)"
    by blast
  then have "v = JwkJwtVerifier IdToken example_jwk (Some example_thumbprint)"
    by (simp add: empty_header_def empty_payload_def)
  with v a show ?thesis by simp
qed


text \<open>
  Claim C2, as the code has it.  With \<open>client_id_scheme\<close> equal to \<open>redirect_uri\<close>: a
  \<open>redirect_uri\<close> claim that is present (truthy) and differs from \<open>client_id\<close> fails with
  \<open>INVALID_CLIENT_ID_MUST_MATCH_REDIRECT_URI\<close>; otherwise a raw token with two or more dots
  (three or more segments) fails with the must-not-be-signed message; otherwise the result
  is that of \<open>getJwtVerifierWithContext\<close>.
\<close>

theorem getRequestObjectJwtVerifier_redirect_uri_scheme:
  assumes "client_id_scheme (payload j) = Str ''redirect_uri''"
  shows "(truthy (redirect_uri (payload j)) \<and> redirect_uri (payload j) \<noteq> of_opt (client_id (payload j))
          \<longrightarrow> getRequestObjectJwtVerifier H j raw
                = Inl (SIOPError INVALID_CLIENT_ID_MUST_MATCH_REDIRECT_URI []))
    \<and> (\<not> (truthy (redirect_uri (payload j))
             \<and> redirect_uri (payload j) \<noteq> of_opt (client_id (payload j)))
        \<and> 2 \<le> count_list raw (CHR ''.'')
          \<longrightarrow> getRequestObjectJwtVerifier H j raw = Inl mustNotBeSigned)
    \<and> (\<not> (truthy (redirect_uri (payload j))
             \<and> redirect_uri (payload j) \<noteq> of_opt (client_id (payload j)))
        \<and> count_list raw (CHR ''.'') < 2
          \<longrightarrow> getRequestObjectJwtVerifier H j raw = getJwtVerifierWithContext H j RequestObject)"
  using assms
  by (auto simp: getRequestObjectJwtVerifier_def mustNotBeSigned_def length_split_char Let_def)

text \<open>The theorem at a token with a differing \<open>redirect_uri\<close>, and at a signed one.\<close>

theorem getRequestObjectJwtVerifier_redirect_uri_scheme_witness:
  "getRequestObjectJwtVerifier (example_helpers example_attestation)
        \<lparr>header = empty_header,
         payload = empty_payload\<lparr>client_id_scheme := Str ''redirect_uri'',
                   client_id := Some ''https://verifier.example'',
                   redirect_uri := Str ''https://other.example/cb''\<rparr>\<rparr> ''e30.e30''
      = Inl (SIOPError INVALID_CLIENT_ID_MUST_MATCH_REDIRECT_URI [])
   \<and> getRequestObjectJwtVerifier (example_helpers example_attestation)
        \<lparr>header = empty_header,
         payload = empty_payload\<lparr>client_id_scheme := Str ''redirect_uri'',
                   client_id := Some ''https://verifier.example'',
                   redirect_uri := Str ''https://verifier.example''\<rparr>\<rparr> ''e30.e30.c2ln''
      = Inl mustNotBeSigned"
proof -
  let ?H = "example_helpers example_attestation"
  let ?p = "empty_payload\<lparr>client_id_scheme := Str ''redirect_uri'',
                   client_id := Some ''https://verifier.example''\<rparr>"
  have 1: "getRequestObjectJwtVerifier ?H
        \<lparr>header = empty_header, payload = ?p\<lparr>redirect_uri := Str ''https://other.example/cb''\<rparr>\<rparr>
        ''e30.e30'' = Inl (SIOPError INVALID_CLIENT_ID_MUST_MATCH_REDIRECT_URI [])"
    using getRequestObjectJwtVerifier_redirect_uri_scheme [of "\<lparr>header = empty_header, payload = ?p\<lparr>redirect_uri := Str ''https://other.example/cb''\<rparr>\<rparr>" ?H "''e30.e30''"]
    by simp
  have 2: "getRequestObjectJwtVerifier ?H
        \<lparr>header = empty_header, payload = ?p\<lparr>redirect_uri := Str ''https://verifier.example''\<rparr>\<rparr>
        ''e30.e30.c2ln'' = Inl mustNotBeSigned"
    using getRequestObjectJwtVerifier_redirect_uri_scheme [of "\<lparr>header = empty_header, payload = ?p\<lparr>redirect_uri := Str ''https://verifier.example''\<rparr>\<rparr>" ?H "''e30.e30.c2ln''"]
    by simp
  from 1 2 show ?thesis by simp
qed

text \<open>
  The claim as it was stated requires the \<open>redirect_uri\<close> claim to equal \<open>client_id\<close>.  A
  token without a \<open>redirect_uri\<close> claim, which does not equal its \<open>client_id\<close>, passes the
  check and is resolved by auto-detection.
\<close>

theorem getRequestObjectJwtVerifier_absent_redirect_uri_passes:
  "redirect_uri (empty_payload\<lparr>client_id_scheme := Str ''redirect_uri'',
                   client_id := Some ''https://verifier.example''\<rparr>)
     \<noteq> of_opt (client_id (empty_payload\<lparr>client_id_scheme := Str ''redirect_uri'',
                   client_id := Some ''https://verifier.example''\<rparr>))
   \<and> getRequestObjectJwtVerifier (example_helpers example_attestation)
        \<lparr>header = empty_header,
         payload = empty_payload\<lparr>client_id_scheme := Str ''redirect_uri'',
                   client_id := Some ''https://verifier.example''\<rparr>\<rparr> ''e30.e30''
      = Inr (CustomJwtVerifier RequestObject)"
  by (simp add: getRequestObjectJwtVerifier_def getJwtVerifierWithContext_def empty_header_def
        empty_payload_def split_two_dots)

text \<open>
  Claim C5, as the code has it.  A token whose \<open>kid\<close> contains \<open>#\<close> and starts with \<open>did:\<close>
  resolves, with no declared scheme or with the scheme \<open>did\<close>, to the \<open>did\<close> verifier whose
  \<open>didUrl\<close> is the \<open>kid\<close>.  A token whose \<open>kid\<close> is absent or lacks \<open>#\<close> fails with an
  \<open>INVALID_JWT\<close> error under the scheme \<open>did\<close>; with no declared scheme it fails so when the
  \<open>kid\<close> starts with \<open>did:\<close>.
\<close>

theorem getRequestObjectJwtVerifier_did:
  "(\<forall>k. kid (header j) = Some k \<and> str_includes k ''#'' \<and> prefix ''did:'' k
        \<and> (\<not> truthy (client_id_scheme (payload j)) \<or> client_id_scheme (payload j) = Str ''did'')
      \<longrightarrow> getRequestObjectJwtVerifier H j raw = Inr (DidJwtVerifier RequestObject k))
   \<and> ((kid (header j) = None \<or> (\<exists>k. kid (header j) = Some k \<and> \<not> str_includes k ''#''))
        \<and> client_id_scheme (payload j) = Str ''did''
      \<longrightarrow> (\<exists>e. getRequestObjectJwtVerifier H j raw = Inl e \<and> invalidJwt e))
   \<and> (\<forall>k. kid (header j) = Some k \<and> \<not> str_includes k ''#'' \<and> prefix ''did:'' k
        \<and> \<not> truthy (client_id_scheme (payload j))
      \<longrightarrow> (\<exists>e. getRequestObjectJwtVerifier H j raw = Inl e \<and> invalidJwt e))"
  by (auto simp: getRequestObjectJwtVerifier_def getJwtVerifierWithContext_def getDidJwtVerifier_def
        invalidJwt_def Let_def split: option.splits)

text \<open>The theorem at a \<open>kid\<close> with a fragment, and at one without.\<close>

theorem getRequestObjectJwtVerifier_did_witness:
  "getRequestObjectJwtVerifier (example_helpers example_attestation)
        \<lparr>header = empty_header\<lparr>kid := Some ''did:example:123#key-1''\<rparr>, payload = empty_payload\<rparr>
        ''e30.e30.c2ln''
      = Inr (DidJwtVerifier RequestObject ''did:example:123#key-1'')
   \<and> (\<exists>e. getRequestObjectJwtVerifier (example_helpers example_attestation)
        \<lparr>header = empty_header\<lparr>kid := Some ''did:example:123''\<rparr>, payload = empty_payload\<rparr>
        ''e30.e30.c2ln'' = Inl e \<and> invalidJwt e)"
proof -
  let ?H = "example_helpers example_attestation"
  have i: "str_includes ''did:example:123#key-1'' ''#''" "\<not> str_includes ''did:example:123'' ''#''"
    by (simp_all add: str_includes_def)
  have 1: "getRequestObjectJwtVerifier ?H
        \<lparr>header = empty_header\<lparr>kid := Some ''did:example:123#key-1''\<rparr>, payload = empty_payload\<rparr>
        ''e30.e30.c2ln'' = Inr (DidJwtVerifier RequestObject ''did:example:123#key-1'')"
    using getRequestObjectJwtVerifier_did [of "\<lparr>header = empty_header\<lparr>kid := Some ''did:example:123#key-1''\<rparr>, payload = empty_payload\<rparr>" ?H "''e30.e30.c2ln''"] i
    by (simp add: empty_payload_def)
  have 2: "\<exists>e. getRequestObjectJwtVerifier ?H
        \<lparr>header = empty_header\<lparr>kid := Some ''did:example:123''\<rparr>, payload = empty_payload\<rparr>
        ''e30.e30.c2ln'' = Inl e \<and> invalidJwt e"
    using getRequestObjectJwtVerifier_did [of "\<lparr>header = empty_header\<lparr>kid := Some ''did:example:123''\<rparr>, payload = empty_payload\<rparr>" ?H "''e30.e30.c2ln''"] i
    by (simp add: empty_payload_def)
  from 1 2 show ?thesis by (rule conjI)
qed


text \<open>
  The claim as it was stated has resolution fail for every \<open>kid\<close> that lacks \<open>#\<close>.  With no
  declared scheme, a \<open>kid\<close> that does not start with \<open>did:\<close> is not looked at: the token
  resolves to the \<open>custom\<close> verifier.
\<close>

theorem getRequestObjectJwtVerifier_kid_without_fragment_is_custom:
  "\<not> str_includes ''key-1'' ''#''
   \<and> getRequestObjectJwtVerifier (example_helpers example_attestation)
        \<lparr>header = empty_header\<lparr>kid := Some ''key-1''\<rparr>, payload = empty_payload\<rparr> ''e30.e30.c2ln''
      = Inr (CustomJwtVerifier RequestObject)"
  by (simp add: getRequestObjectJwtVerifier_def getJwtVerifierWithContext_def empty_header_def
        empty_payload_def str_includes_def)

text \<open>
  Claim C6, as the code has it.  For a request object with the scheme
  \<open>verifier_attestation\<close>, a nested token in its \<open>jwt\<close> header and the outer \<open>typ\<close>
  \<open>verifier-attestation+jwt\<close>, whose nested token parses, and where neither \<open>cnf\<close> nor
  \<open>cnf.jwk\<close> of the nested payload is \<open>null\<close>:
  the result is \<open>BAD_VERIFIER_ATTESTATION\<close> unless the nested \<open>typ\<close> is the subtype, the
  nested \<open>sub\<close> equals the outer \<open>client_id\<close>, \<open>iss\<close> is a string that is not empty, \<open>exp\<close> is a
  number that is not zero, and \<open>cnf\<close> and \<open>cnf.jwk\<close> are objects;
  otherwise it is \<open>BAD_VERIFIER_ATTESTATION_REDIRECT_URIS\<close> when the nested \<open>redirect_uris\<close>
  is truthy and is not an array of strings that contains the outer \<open>redirect_uri\<close>;
  otherwise it is the \<open>jwk\<close> verifier of type \<open>request-object\<close> with the nested \<open>cnf.jwk\<close>.
\<close>

theorem getRequestObjectJwtVerifier_verifier_attestation:
  assumes "client_id_scheme (payload j) = Str ''verifier_attestation''"
    and "jwt (header j) = Some a" and "a \<noteq> []"
    and "typ' (header j) = Str ''verifier-attestation+jwt''"
    and "parseJWT H a = Inr att"
    and "cnf (payload att) \<noteq> Null"
    and "opt_get (cnf (payload att)) ''jwk'' \<noteq> Null"
  shows "(\<not> attestationClaimsOk att (client_id (payload j))
            \<longrightarrow> getRequestObjectJwtVerifier H j raw = Inl (SIOPError BAD_VERIFIER_ATTESTATION []))
    \<and> (attestationClaimsOk att (client_id (payload j))
          \<and> truthy (redirect_uris (payload att))
          \<and> \<not> redirectUriAllowed att (redirect_uri (payload j))
            \<longrightarrow> getRequestObjectJwtVerifier H j raw
                  = Inl (SIOPError BAD_VERIFIER_ATTESTATION_REDIRECT_URIS []))
    \<and> (attestationClaimsOk att (client_id (payload j))
          \<and> (truthy (redirect_uris (payload att))
               \<longrightarrow> redirectUriAllowed att (redirect_uri (payload j)))
            \<longrightarrow> getRequestObjectJwtVerifier H j raw
                  = Inr (JwkJwtVerifier RequestObject (opt_get (cnf (payload att)) ''jwk'') None))"
proof -
  have r: "getRequestObjectJwtVerifier H j raw = verifierAttestation H j"
    using assms(1) by (simp add: getRequestObjectJwtVerifier_def Let_def)
  have b: "attestationClaimsBad att (client_id (payload j))
           = Inr (\<not> attestationClaimsOk att (client_id (payload j)))"
    using assms(6) by (rule attestationClaimsBad_iff)
  have g: "get_prop (cnf (payload att)) ''jwk'' = Inr (opt_get (cnf (payload att)) ''jwk'')"
    if "attestationClaimsOk att (client_id (payload j))"
    using that assms(6) by (simp add: attestationClaimsOk_def get_prop_not_null)
  show ?thesis
    unfolding r verifierAttestation_def
    using assms(2-5) g
    by (simp add: b verifierAttestationSubtype_def attestationRedirectUrisBad_iff)
qed


text \<open>The theorem at an accepted attestation, at one whose \<open>redirect_uris\<close> does not hold
  the (absent) outer \<open>redirect_uri\<close>, and at one whose \<open>iss\<close> is a number.\<close>

theorem getRequestObjectJwtVerifier_verifier_attestation_witness:
  "getRequestObjectJwtVerifier (example_helpers example_attestation)
      example_request_object ''e30.e30.c2ln''
    = Inr (JwkJwtVerifier RequestObject example_jwk None)
   \<and> getRequestObjectJwtVerifier
      (example_helpers (example_attestation\<lparr>payload :=
          (payload example_attestation)\<lparr>redirect_uris := Arr [Str ''https://verifier.example/cb'']\<rparr>\<rparr>))
      example_request_object ''e30.e30.c2ln''
    = Inl (SIOPError BAD_VERIFIER_ATTESTATION_REDIRECT_URIS [])
   \<and> getRequestObjectJwtVerifier
      (example_helpers (example_attestation\<lparr>payload :=
          (payload example_attestation)\<lparr>iss := Num 7\<rparr>\<rparr>))
      example_request_object ''e30.e30.c2ln''
    = Inl (SIOPError BAD_VERIFIER_ATTESTATION [])"
proof -
  let ?a2 = "example_attestation\<lparr>payload :=
          (payload example_attestation)\<lparr>redirect_uris := Arr [Str ''https://verifier.example/cb'']\<rparr>\<rparr>"
  let ?a3 = "example_attestation\<lparr>payload := (payload example_attestation)\<lparr>iss := Num 7\<rparr>\<rparr>"
  have o: "client_id_scheme (payload example_request_object) = Str ''verifier_attestation''"
    "jwt (header example_request_object) = Some ''eyJ0eXAi.eyJpc3Mi.c2ln''"
    "''eyJ0eXAi.eyJpc3Mi.c2ln'' \<noteq> []"
    "typ' (header example_request_object) = Str ''verifier-attestation+jwt''"
    by (simp_all add: example_request_object_def empty_header_def empty_payload_def)
  have p: "parseJWT (example_helpers att) ''eyJ0eXAi.eyJpc3Mi.c2ln'' = Inr att" for att
    by (simp add: example_helpers_def)
  have n: "cnf (payload example_attestation) \<noteq> Null"
    "opt_get (cnf (payload example_attestation)) ''jwk'' \<noteq> Null"
    "cnf (payload ?a2) \<noteq> Null" "opt_get (cnf (payload ?a2)) ''jwk'' \<noteq> Null"
    "cnf (payload ?a3) \<noteq> Null" "opt_get (cnf (payload ?a3)) ''jwk'' \<noteq> Null"
    by (simp_all add: example_attestation_def example_jwk_def empty_payload_def)
  have ok: "attestationClaimsOk example_attestation (client_id (payload example_request_object))"
    "attestationClaimsOk ?a2 (client_id (payload example_request_object))"
    "\<not> attestationClaimsOk ?a3 (client_id (payload example_request_object))"
    by (simp_all add: attestationClaimsOk_def example_attestation_def example_request_object_def
          example_jwk_def empty_header_def empty_payload_def)
  have ru: "\<not> truthy (redirect_uris (payload example_attestation))"
    "truthy (redirect_uris (payload ?a2))"
    "\<not> redirectUriAllowed ?a2 (redirect_uri (payload example_request_object))"
    by (simp_all add: redirectUriAllowed_def example_attestation_def example_request_object_def
          empty_payload_def)
  have j: "opt_get (cnf (payload example_attestation)) ''jwk'' = example_jwk"
    by (simp add: example_attestation_def empty_payload_def)
  have 1: "getRequestObjectJwtVerifier (example_helpers example_attestation)
      example_request_object ''e30.e30.c2ln'' = Inr (JwkJwtVerifier RequestObject example_jwk None)"
    using getRequestObjectJwtVerifier_verifier_attestation [OF o p n(1,2), of "''e30.e30.c2ln''"] ok(1) ru(1) j by simp
  have 2: "getRequestObjectJwtVerifier (example_helpers ?a2) example_request_object ''e30.e30.c2ln''
      = Inl (SIOPError BAD_VERIFIER_ATTESTATION_REDIRECT_URIS [])"
    using getRequestObjectJwtVerifier_verifier_attestation [OF o p n(3,4), of "''e30.e30.c2ln''"] ok(2) ru(2,3) by blast
  have 3: "getRequestObjectJwtVerifier (example_helpers ?a3) example_request_object ''e30.e30.c2ln''
      = Inl (SIOPError BAD_VERIFIER_ATTESTATION [])"
    using getRequestObjectJwtVerifier_verifier_attestation [OF o p n(5,6), of "''e30.e30.c2ln''"] ok(3) by blast
  from 1 2 3 show ?thesis by (intro conjI)
qed

text \<open>
  The claim as it was stated has every declared \<open>redirect_uris\<close> that is not an array of
  strings fail, and every \<open>cnf\<close> that is not an object fail with
  \<open>BAD_VERIFIER_ATTESTATION\<close>.  A nested payload whose \<open>redirect_uris\<close> is the empty string is
  accepted; one whose \<open>cnf\<close> is \<open>null\<close> passes \<open>typeof\<close> and fails with a \<open>TypeError\<close> when
  \<open>cnf['jwk']\<close> is read.
\<close>

theorem getRequestObjectJwtVerifier_attestation_empty_redirect_uris_passes:
  "getRequestObjectJwtVerifier
      (example_helpers (example_attestation\<lparr>payload :=
          (payload example_attestation)\<lparr>redirect_uris := Str []\<rparr>\<rparr>))
      example_request_object ''e30.e30.c2ln''
    = Inr (JwkJwtVerifier RequestObject example_jwk None)
   \<and> getRequestObjectJwtVerifier
      (example_helpers (example_attestation\<lparr>payload :=
          (payload example_attestation)\<lparr>cnf := Null\<rparr>\<rparr>))
      example_request_object ''e30.e30.c2ln''
    = Inl TypeError"
  by (simp add: attestation_defs)

section \<open>Expiry of sessions\<close>

lemma map_of_sweep:
  "map_of (sweep t now entries st) k =
     (if \<exists>s. (k, s) \<in> set entries \<and> createdAt s + t \<le> now then None else map_of st k)"
proof (induction entries arbitrary: st)
  case Nil
  show ?case by simp
next
  case (Cons e entries)
  obtain k' s' where e: "e = (k', s')" by (cases e)
  show ?case
    unfolding e sweep.simps Cons.IH
    by (auto simp: AList.delete_conv')
qed

lemma distinct_sweep:
  "distinct (map fst st) \<Longrightarrow> distinct (map fst (sweep t now entries st))"
  by (induction t now entries st rule: sweep.induct) (simp_all add: AList.distinct_delete)

lemma store_ok_preserved:
  "store_ok \<lparr>ttl = t, states = []\<rparr>"
  "store_ok m \<Longrightarrow> store_ok (setState k s m)"
  "store_ok m \<Longrightarrow> store_ok (snd (deleteState k m))"
  "store_ok m \<Longrightarrow> store_ok (clearExpiredStates now m)"
  "store_ok (clearAllStates m)"
  by (simp_all add: store_ok_def setState_def deleteState_def clearExpiredStates_def
        clearAllStates_def AList.distinct_update AList.distinct_delete distinct_sweep)

lemma getState_clearExpiredStates:
  assumes "store_ok m"
  shows "getState k (clearExpiredStates now m) =
     (case getState k m of
        None \<Rightarrow> None
      | Some s \<Rightarrow> if createdAt s + ttl m \<le> now then None else Some s)"
proof -
  have d: "distinct (map fst (states m))" using assms by (simp add: store_ok_def)
  have "(\<exists>s. (k, s) \<in> set (states m) \<and> createdAt s + ttl m \<le> now)
        \<longleftrightarrow> (\<exists>s. map_of (states m) k = Some s \<and> createdAt s + ttl m \<le> now)"
    using d by simp
  then show ?thesis
    unfolding getState_def clearExpiredStates_def
    by (auto simp: map_of_sweep split: option.splits)
qed

text \<open>
  Claim C9.  In a store that holds no key twice, after \<open>clearExpiredStates(now)\<close> a key has
  the session it had when \<open>created_at + ttl > now\<close> and none when \<open>created_at + ttl <= now\<close>:
  the sweep removes exactly the expired sessions.  A session with \<open>created_at + ttl = now\<close> is
  removed, and \<open>getState\<close> and \<open>hasState\<close> then find nothing; one with
  \<open>created_at + ttl = now + 1\<close> is kept.  \<open>isPreAuthorizedCodeExpired\<close> of the sources has the
  same inclusive boundary, with the duration in seconds.
\<close>

theorem clearExpiredStates_removes_exactly_expired:
  assumes "store_ok m"
  shows "getState k (clearExpiredStates now m) =
           (case getState k m of
              None \<Rightarrow> None
            | Some s \<Rightarrow> if createdAt s + ttl m \<le> now then None else Some s)
    \<and> (\<forall>s. getState k m = Some s \<and> createdAt s + ttl m = now
           \<longrightarrow> getState k (clearExpiredStates now m) = None
               \<and> \<not> hasState k (clearExpiredStates now m))
    \<and> (\<forall>s. getState k m = Some s \<and> createdAt s + ttl m = now + 1
           \<longrightarrow> getState k (clearExpiredStates now m) = Some s)
    \<and> (isPreAuthorizedCodeExpired now state seconds
           \<longleftrightarrow> createdAt state + seconds * 1000 \<le> now)"
  using getState_clearExpiredStates [OF assms, of k now]
  by (auto simp: hasState_def isPreAuthorizedCodeExpired_def Let_def)

text \<open>
  The theorem on the store of the test, with a \<open>ttl\<close> of zero: ten seconds after the
  second session was created, the first two sessions are gone and the third is there; the
  second is gone already at the millisecond of its creation, and is there one before.
\<close>

theorem clearExpiredStates_removes_exactly_expired_witness:
  "store_ok (test_store 0 1700000000000)
   \<and> getState ''0'' (clearExpiredStates (1700000000000 + 10000) (test_store 0 1700000000000)) = None
   \<and> getState ''1'' (clearExpiredStates (1700000000000 + 10000) (test_store 0 1700000000000)) = None
   \<and> getState ''2'' (clearExpiredStates (1700000000000 + 10000) (test_store 0 1700000000000))
       = Some (test_session (1700000000000 + 86400000))
   \<and> getState ''1'' (clearExpiredStates 1700000000000 (test_store 0 1700000000000)) = None
   \<and> getState ''1'' (clearExpiredStates (1700000000000 - 1) (test_store 0 1700000000000))
       = Some (test_session 1700000000000)"
proof -
  let ?m = "test_store 0 1700000000000"
  have ok: "store_ok ?m" by (simp add: test_store_def store_ok_preserved)
  have g: "getState ''0'' ?m = Some (test_session (1700000000000 - 86400000))"
    "getState ''1'' ?m = Some (test_session 1700000000000)"
    "getState ''2'' ?m = Some (test_session (1700000000000 + 86400000))"
    by (simp_all add: test_store_def getState_def setState_def)
  have t: "ttl ?m = 0" by (simp add: test_store_def setState_def)
  have c: "createdAt (test_session x) = x" for x by (simp add: test_session_def)
  note th = clearExpiredStates_removes_exactly_expired [OF ok, THEN conjunct1]
  have "getState ''0'' (clearExpiredStates (1700000000000 + 10000) ?m) = None"
    by (simp add: th g t c)
  moreover have "getState ''1'' (clearExpiredStates (1700000000000 + 10000) ?m) = None"
    by (simp add: th g t c)
  moreover have "getState ''2'' (clearExpiredStates (1700000000000 + 10000) ?m)
       = Some (test_session (1700000000000 + 86400000))"
    by (simp add: th g t c)
  moreover have "getState ''1'' (clearExpiredStates 1700000000000 ?m) = None"
    by (simp add: th g t c)
  moreover have "getState ''1'' (clearExpiredStates (1700000000000 - 1) ?m)
       = Some (test_session 1700000000000)"
    by (simp add: th g t c)
  ultimately show ?thesis using ok by (intro conjI)
qed

section \<open>The draft-8 request of a credential that is only a VerifiableCredential\<close>

text \<open>
  Claim C10.  For a request of format \<open>jwt_vc_json\<close> or \<open>jwt_vc\<close> whose \<open>types\<close> is not empty
  and holds nothing but \<open>VerifiableCredential\<close>, and when \<open>getFormatForVersion\<close> returns a
  format: \<open>getTypesFromRequest\<close> with the filter returns the empty list (the check for an
  empty list comes before the filter), and \<open>getCredentialRequestForVersion\<close> for
  \<open>VER_1_0_08\<close> returns the draft-8 request whose \<open>type\<close> is absent.
\<close>

theorem getCredentialRequestForVersion_only_VerifiableCredential:
  assumes "format r = ''jwt_vc_json'' \<or> format r = ''jwt_vc''"
    and "types r = Some ts" and "ts \<noteq> []"
    and "list_all (\<lambda>t. t = ''VerifiableCredential'') ts"
    and "getFormatForVersion (format r) VER_1_0_08 = Inr draft8Format"
  shows "getTypesFromRequest r (Some True) = Inr []
    \<and> getCredentialRequestForVersion getFormatForVersion r VER_1_0_08
        = Inr (Inr \<lparr>format_08 = draft8Format, proof_08 = proof' r, type_08 = None\<rparr>)"
proof -
  have f: "filter (\<lambda>type. type \<noteq> ''VerifiableCredential'') ts = []"
    using assms(4) by (simp add: list_all_iff filter_empty_conv)
  have t: "getTypesFromRequest r (Some True) = Inr []"
    using assms(1-3) f by (auto simp: getTypesFromRequest_def)
  show ?thesis
    using t assms(5) by (simp add: getCredentialRequestForVersion_def at_index_def)
qed

text \<open>The theorem at the request whose \<open>types\<close> is \<open>['VerifiableCredential']\<close>.\<close>

theorem getCredentialRequestForVersion_only_VerifiableCredential_witness:
  "getTypesFromRequest example_request (Some True) = Inr []
   \<and> getCredentialRequestForVersion example_format_for_version example_request VER_1_0_08
        = Inr (Inr \<lparr>format_08 = ''jwt_vc'', proof_08 = Obj [(''proof_type'', Str ''jwt'')],
                    type_08 = None\<rparr>)"
proof -
  have a: "format example_request = ''jwt_vc_json'' \<or> format example_request = ''jwt_vc''"
    and b: "types example_request = Some [''VerifiableCredential'']"
    and c: "[''VerifiableCredential''] \<noteq> []"
    and d: "list_all (\<lambda>t. t = ''VerifiableCredential'') [''VerifiableCredential'']"
    and e: "example_format_for_version (format example_request) VER_1_0_08 = Inr ''jwt_vc''"
    by (simp_all add: example_request_def example_format_for_version_def)
  from getCredentialRequestForVersion_only_VerifiableCredential [of example_request "[''VerifiableCredential'']" example_format_for_version
        "''jwt_vc''", OF a b c d e]
  show ?thesis by (simp add: example_request_def)
qed

section \<open>The URI of an offer can be read back\<close>

text \<open>Decoding undoes encoding, and an encoded component has no \<open>=\<close>.\<close>

lemma hex_value_hex_digit: "d < 16 \<Longrightarrow> hex_value (hex_digit u d) = Some d"
proof -
  assume "d < 16"
  then have "d \<in> set [0..<16]" by simp
  then have "d \<in> {0,1,2,3,4,5,6,7,8,9,10,11,12,13,14,15}"
    by (simp add: upt_conv_Cons numeral_eq_Suc)
  then show ?thesis
    by (cases u) (auto simp: hex_value_def hex_digit_def)
qed

lemma char_of_hex: "char_of (16 * (of_char c div 16) + (of_char c :: nat) mod 16) = c"
  by simp

lemma hex_value_hex2:
  "hex2 u c = [a, b] \<Longrightarrow> \<exists>x y. hex_value a = Some x \<and> hex_value b = Some y \<and> char_of (16 * x + y) = c"
proof -
  assume h: "hex2 u c = [a, b]"
  have 1: "(of_char c :: nat) div 16 < 16"
    using nat_of_char_less_256 [of c] by (simp add: less_mult_imp_div_less)
  have 2: "(of_char c :: nat) mod 16 < 16" by simp
  from h have "a = hex_digit u (of_char c div 16)" "b = hex_digit u (of_char c mod 16)"
    by (simp_all add: hex2_def)
  then show ?thesis
    using hex_value_hex_digit [OF 1, of u] hex_value_hex_digit [OF 2, of u] char_of_hex [of c]
    by simp
qed

lemma uri_unreserved_not_percent: "uri_unreserved c \<Longrightarrow> c \<noteq> CHR ''%''"
  by (auto simp: uri_unreserved_def)

lemma decode_encodeURIComponent: "decodeURIComponent (encodeURIComponent s) = Inr s"
proof (induction s)
  case Nil
  show ?case by (simp add: encodeURIComponent_def)
next
  case (Cons c s)
  have e: "encodeURIComponent (c # s)
      = (if uri_unreserved c then [c] else CHR ''%'' # hex2 True c) @ encodeURIComponent s"
    by (simp add: encodeURIComponent_def)
  show ?case
  proof (cases "uri_unreserved c")
    case True
    then show ?thesis using Cons.IH uri_unreserved_not_percent [OF True] by (simp add: e)
  next
    case False
    obtain a b where ab: "hex2 True c = [a, b]" by (simp add: hex2_def)
    from hex_value_hex2 [OF ab] obtain x y where
      "hex_value a = Some x" "hex_value b = Some y" "char_of (16 * x + y) = c" by blast
    then show ?thesis using False Cons.IH by (simp add: e ab)
  qed
qed

lemma hex_digit_unreserved: "d < 16 \<Longrightarrow> uri_unreserved (hex_digit True d)"
proof -
  assume "d < 16"
  then have "d \<in> set [0..<16]" by simp
  then have "d \<in> {0,1,2,3,4,5,6,7,8,9,10,11,12,13,14,15}"
    by (simp add: upt_conv_Cons numeral_eq_Suc)
  then show ?thesis by (auto simp: uri_unreserved_def hex_digit_def)
qed

lemma encodeURIComponent_chars:
  "c \<in> set (encodeURIComponent s) \<Longrightarrow> uri_unreserved c \<or> c = CHR ''%''"
proof (induction s)
  case Nil
  then show ?case by (simp add: encodeURIComponent_def)
next
  case (Cons a s)
  have 1: "(of_char a :: nat) div 16 < 16"
    using nat_of_char_less_256 [of a] by (simp add: less_mult_imp_div_less)
  have 2: "(of_char a :: nat) mod 16 < 16" by simp
  from Cons show ?case
    using hex_digit_unreserved [OF 1] hex_digit_unreserved [OF 2]
    by (auto simp: encodeURIComponent_def hex2_def split: if_splits)
qed

lemma encodeURIComponent_no_equals: "CHR ''='' \<notin> set (encodeURIComponent s)"
  using encodeURIComponent_chars [of "CHR ''=''" s] by (auto simp: uri_unreserved_def)

text \<open>Parsing undoes the escapes of a string and the digits of a number.\<close>

lemma hex2_values:
  "map hex_value (hex2 u c) = [Some (of_char c div 16), Some (of_char c mod 16)]"
proof -
  have 1: "(of_char c :: nat) div 16 < 16"
    using nat_of_char_less_256 [of c] by (simp add: less_mult_imp_div_less)
  have 2: "(of_char c :: nat) mod 16 < 16" by simp
  show ?thesis
    by (simp add: hex2_def hex_value_hex_digit [OF 1] hex_value_hex_digit [OF 2])
qed

lemma unicode_escape_control:
  assumes "(of_char c :: nat) < 32"
  shows "unicode_escape ([CHR ''0'', CHR ''0''] @ hex2 False c) = Inr c"
proof -
  have z: "hex_value (CHR ''0'') = Some 0" by (simp add: hex_value_def)
  have m: "map hex_value ([CHR ''0'', CHR ''0''] @ hex2 False c)
           = [Some 0, Some 0, Some (of_char c div 16), Some (of_char c mod 16)]"
    by (simp add: z hex2_values)
  have v: "((0 * 16 + 0) * 16 + (of_char c :: nat) div 16) * 16 + of_char c mod 16 = of_char c"
    by simp
  show ?thesis
    unfolding unicode_escape_def m using assms by (simp add: v)
qed

lemma parse_string_escape:
  "parse_string (json_escape c @ t) =
     (case parse_string t of Inl e \<Rightarrow> Inl e | Inr (u, r) \<Rightarrow> Inr (c # u, r))"
proof -
  consider (special) "c \<in> {CHR 0x22, CHR 0x5C, CHR 0x08, CHR 0x0C, CHR 0x0A, CHR 0x0D, CHR 0x09}"
    | (control) "c \<notin> {CHR 0x22, CHR 0x5C, CHR 0x08, CHR 0x0C, CHR 0x0A, CHR 0x0D, CHR 0x09}"
        "(of_char c :: nat) < 32"
    | (plain) "c \<notin> {CHR 0x22, CHR 0x5C, CHR 0x08, CHR 0x0C, CHR 0x0A, CHR 0x0D, CHR 0x09}"
        "\<not> (of_char c :: nat) < 32"
    by blast
  then show ?thesis
  proof cases
    case special
    then show ?thesis
      by (auto simp: json_escape_def json_unescape_def)
  next
    case control
    obtain a b where ab: "hex2 False c = [a, b]" by (simp add: hex2_def)
    have u: "unicode_escape [CHR ''0'', CHR ''0'', a, b] = Inr c"
      using unicode_escape_control [OF control(2)] by (simp add: ab)
    have e: "json_escape c = [CHR 0x5C, CHR ''u'', CHR ''0'', CHR ''0'', a, b]"
      using control by (simp add: json_escape_def ab)
    show ?thesis by (simp add: e u)
  next
    case plain
    then have e: "json_escape c = [c]" by (simp add: json_escape_def)
    from plain show ?thesis by (simp add: e)
  qed
qed

lemma parse_string_quote:
  "parse_string (concat (map json_escape s) @ CHR 0x22 # rest) = Inr (s, rest)"
proof (induction s)
  case Nil
  show ?case by simp
next
  case (Cons c s)
  have "parse_string (json_escape c @ (concat (map json_escape s) @ CHR 0x22 # rest))
        = Inr (c # s, rest)"
    unfolding parse_string_escape Cons.IH by simp
  then show ?case by simp
qed

lemma parse_string_json_quote:
  "json_quote s @ rest = CHR 0x22 # t \<Longrightarrow> parse_string t = Inr (s, rest)"
  using parse_string_quote [of s rest] by (auto simp: json_quote_def)

lemma is_digit_char_of: "n < 10 \<Longrightarrow> is_digit (char_of (48 + n :: nat))"
  by (simp add: is_digit_def)

lemma digit_value_char_of: "n < 10 \<Longrightarrow> (of_char (char_of (48 + n :: nat)) :: nat) - 48 = n"
  by simp

lemma digits_nonempty: "digits n \<noteq> []"
  by (subst digits.simps) simp

lemma digits_are_digits: "c \<in> set (digits n) \<Longrightarrow> is_digit c"
proof (induction n arbitrary: c rule: digits.induct)
  case (1 n)
  show ?case
  proof (cases "n < 10")
    case True
    with "1.prems" show ?thesis by (simp add: digits.simps [of n] is_digit_char_of)
  next
    case False
    with "1.prems" have "c \<in> set (digits (n div 10)) \<or> c = char_of (48 + n mod 10)"
      by (auto simp: digits.simps [of n])
    then show ?thesis
      using "1.IH" [OF False] is_digit_char_of [of "n mod 10"] by auto
  qed
qed

lemma digits_value_snoc:
  "digits_value (ds @ [c]) = 10 * digits_value ds + (of_char c - 48)"
  by (simp add: digits_value_def)

lemma digits_value_digits: "digits_value (digits n) = n"
proof (induction n rule: digits.induct)
  case (1 n)
  show ?case
  proof (cases "n < 10")
    case True
    then show ?thesis by (simp add: digits.simps [of n] digits_value_def)
  next
    case False
    have "digits_value (digits n)
          = 10 * digits_value (digits (n div 10)) + (of_char (char_of (48 + n mod 10)) - 48)"
      using False by (simp add: digits.simps [of n] digits_value_snoc)
    also have "\<dots> = 10 * (n div 10) + n mod 10"
      using "1.IH" [OF False] digit_value_char_of [of "n mod 10"] by simp
    finally show ?thesis by simp
  qed
qed

lemma digits_leading: "0 < n \<Longrightarrow> hd (digits n) \<noteq> CHR ''0''"
proof (induction n rule: digits.induct)
  case (1 n)
  show ?case
  proof (cases "n < 10")
    case True
    have "(of_char (char_of (48 + n)) :: nat) = 48 + n" using True by simp
    moreover have "(of_char (CHR ''0'') :: nat) = 48" by simp
    ultimately have "char_of (48 + n) \<noteq> CHR ''0''" using "1.prems" by force
    with True show ?thesis by (simp add: digits.simps [of n])
  next
    case False
    then have "0 < n div 10" by simp
    from "1.IH" [OF False this] show ?thesis
      using False digits_nonempty [of "n div 10"] by (simp add: digits.simps [of n])
  qed
qed

lemma digits_single: "1 < length (digits n) \<Longrightarrow> 0 < n"
  by (cases "n = 0") (simp_all add: digits.simps [of 0])

lemma digits_not_minus: "hd (digits n) \<noteq> CHR ''-''"
proof -
  have "hd (digits n) \<in> set (digits n)" using digits_nonempty by simp
  then have "is_digit (hd (digits n))" by (rule digits_are_digits)
  then show ?thesis by (auto simp: is_digit_def)
qed

lemma takeWhile_digits:
  assumes "ends_number rest"
  shows "takeWhile is_digit (digits n @ rest) = digits n"
    and "dropWhile is_digit (digits n @ rest) = rest"
proof -
  have r: "takeWhile is_digit rest = []" "dropWhile is_digit rest = rest"
    using assms by (cases rest; simp add: ends_number_def)+
  show "takeWhile is_digit (digits n @ rest) = digits n"
    using digits_are_digits [of _ n] by (simp add: takeWhile_append2 r)
  show "dropWhile is_digit (digits n @ rest) = rest"
    using digits_are_digits [of _ n] by (simp add: dropWhile_append2 r)
qed

lemma parse_number_digits:
  assumes "ends_number rest"
  shows "parse_number (digits n @ rest) = Inr (Num (int n), rest)"
proof -
  obtain d ds where d: "digits n = d # ds" using digits_nonempty [of n] by (cases "digits n") auto
  have nm: "d \<noteq> CHR ''-''" using digits_not_minus [of n] by (simp add: d)
  have lead: "\<not> (1 < length (digits n) \<and> hd (digits n) = CHR ''0'')"
    using digits_single [of n] digits_leading [of n] by blast
  have e: "\<not> (case rest of [] \<Rightarrow> False | c # cs \<Rightarrow> c = CHR ''.'' \<or> c = CHR ''e'' \<or> c = CHR ''E'')"
    using assms by (cases rest) (simp_all add: ends_number_def)
  have neg: "(case digits n @ rest of [] \<Rightarrow> False | c # cs \<Rightarrow> c = CHR ''-'') = False"
    using nm by (simp add: d)
  show ?thesis
    unfolding parse_number_def neg Let_def
    using lead e digits_nonempty [of n]
    by (simp add: takeWhile_digits [OF assms] digits_value_digits)
qed

lemma parse_number_to_string:
  assumes "ends_number rest"
  shows "parse_number (number_to_string i @ rest) = Inr (Num i, rest)"
proof (cases "i < 0")
  case False
  then show ?thesis
    using parse_number_digits [OF assms, of "nat i"] by (simp add: number_to_string_def)
next
  case True
  let ?n = "nat (- i)"
  have lead: "\<not> (1 < length (digits ?n) \<and> hd (digits ?n) = CHR ''0'')"
    using digits_single [of ?n] digits_leading [of ?n] by blast
  have e: "\<not> (case rest of [] \<Rightarrow> False | c # cs \<Rightarrow> c = CHR ''.'' \<or> c = CHR ''e'' \<or> c = CHR ''E'')"
    using assms by (cases rest) (simp_all add: ends_number_def)
  have s: "number_to_string i @ rest = CHR ''-'' # (digits ?n @ rest)"
    using True by (simp add: number_to_string_def)
  show ?thesis
    unfolding s parse_number_def Let_def
    using lead e digits_nonempty [of ?n] True
    by (simp add: takeWhile_digits [OF assms] digits_value_digits)
qed

text \<open>
  Parsing undoes serialisation, by induction on the value: with more fuel than the size of
  the value, and whatever follows the text, provided it cannot continue a number.  The text
  of a value is longer than its size, so the fuel of \<open>JSON_parse\<close> is enough.
\<close>

lemma is_json_Arr [simp]: "is_json (Arr xs) \<longleftrightarrow> (\<forall>x \<in> set xs. is_json x)"
  by (simp add: list_all_iff)

lemma is_json_Obj [simp]:
  "is_json (Obj kvs) \<longleftrightarrow> distinct (map fst kvs) \<and> (\<forall>kv \<in> set kvs. is_json (snd kv))"
  by (auto simp: list_all_iff)

declare is_json.simps(6,7) [simp del]

lemma is_json_stringify: "is_json v \<Longrightarrow> JSON_stringify v = Some (ser v)"
proof -
  assume "is_json v"
  then obtain t where "JSON_stringify v = Some t" by (cases v) simp_all
  then show ?thesis by (simp add: ser_def)
qed

lemma stringify_Arr: "JSON_stringify (Arr xs) = Some (''['' @ join (map ser xs) @ '']'')"
  by (simp add: ser_def [abs_def] comp_def)

lemma map_filter_members:
  "(\<forall>kv \<in> set kvs. is_json (snd kv)) \<Longrightarrow>
   List.map_filter (\<lambda>(k, t). case t of None \<Rightarrow> None | Some s \<Rightarrow> Some (json_quote k @ '':'' @ s))
     (map (map_prod id JSON_stringify) kvs)
   = map (\<lambda>(k, v). json_quote k @ '':'' @ ser v) kvs"
  by (induction kvs) (auto simp: List.map_filter_simps is_json_stringify)

lemma stringify_Obj:
  "(\<forall>kv \<in> set kvs. is_json (snd kv)) \<Longrightarrow>
   JSON_stringify (Obj kvs)
   = Some (''{'' @ join (map (\<lambda>(k, v). json_quote k @ '':'' @ ser v) kvs) @ ''}'')"
  by (simp add: map_filter_members)

lemma digits_start: "\<exists>c cs. digits n = c # cs \<and> is_digit c"
proof -
  obtain c cs where d: "digits n = c # cs" using digits_nonempty [of n] by (cases "digits n") auto
  then have "c \<in> set (digits n)" by simp
  then have "is_digit c" by (rule digits_are_digits)
  with d show ?thesis by blast
qed

lemma number_start:
  "\<exists>c cs. number_to_string i = c # cs \<and> (is_digit c \<or> c = CHR ''-'')"
  using digits_start [of "nat i"] by (auto simp: number_to_string_def)

lemma ser_starts: "is_json v \<Longrightarrow> starts_value (ser v)"
proof (cases v)
  case (Num i)
  obtain c cs where "number_to_string i = c # cs" "is_digit c \<or> c = CHR ''-''"
    using number_start by blast
  then show ?thesis
    by (auto simp: Num ser_def starts_value_def is_ws_def is_digit_def)
qed (auto simp: ser_def starts_value_def is_ws_def json_quote_def)

lemma skip_ws_start: "starts_value t \<Longrightarrow> skip_ws (t @ rest) = t @ rest"
  by (cases t) (simp_all add: starts_value_def skip_ws_def)

lemma skip_ws_delimiter:
  "skip_ws (CHR '','' # r) = CHR '','' # r"
  "skip_ws (CHR '']'' # r) = CHR '']'' # r"
  "skip_ws (CHR ''}'' # r) = CHR ''}'' # r"
  "skip_ws (CHR '':'' # r) = CHR '':'' # r"
  "skip_ws (CHR 0x22 # r) = CHR 0x22 # r"
  by (simp_all add: skip_ws_def is_ws_def)

lemma ends_number_delimiter:
  "ends_number []" "ends_number (CHR '','' # r)" "ends_number (CHR '']'' # r)"
  "ends_number (CHR ''}'' # r)"
  by (simp_all add: ends_number_def is_digit_def)

lemma join_Cons:
  "join (x # xs) @ rest = x @ (if xs = [] then rest else CHR '','' # join xs @ rest)"
  by (cases xs) simp_all

lemma roundtrips_Null: "roundtrips Null"
  unfolding roundtrips_def
proof (intro allI impI)
  fix n rest assume "size Null < n"
  then obtain m where n: "n = Suc m" by (cases n) auto
  show "parse_value n (ser Null @ rest) = Inr (Null, rest)"
    by (simp add: n ser_def skip_ws_def is_ws_def parse_literal_def)
qed

lemma roundtrips_Bool: "roundtrips (Bool b)"
  unfolding roundtrips_def
proof (intro allI impI)
  fix n rest assume "size (Bool b) < n"
  then obtain m where n: "n = Suc m" by (cases n) auto
  show "parse_value n (ser (Bool b) @ rest) = Inr (Bool b, rest)"
    by (cases b) (simp_all add: n ser_def skip_ws_def is_ws_def parse_literal_def)
qed

lemma roundtrips_Str: "roundtrips (Str s)"
  unfolding roundtrips_def
proof (intro allI impI)
  fix n rest assume "size (Str s) < n"
  then obtain m where n: "n = Suc m" by (cases n) auto
  have q: "ser (Str s) @ rest = CHR 0x22 # (concat (map json_escape s) @ CHR 0x22 # rest)"
    by (simp add: ser_def json_quote_def)
  show "parse_value n (ser (Str s) @ rest) = Inr (Str s, rest)"
    unfolding q n by (simp add: skip_ws_delimiter parse_string_quote del: parse_string.simps)
qed

lemma roundtrips_Num: "roundtrips (Num i)"
  unfolding roundtrips_def
proof (intro allI impI)
  fix n rest assume "size (Num i) < n" and e: "ends_number rest"
  then obtain m where n: "n = Suc m" by (cases n) auto
  obtain c cs where c: "number_to_string i = c # cs" "is_digit c \<or> c = CHR ''-''"
    using number_start by blast
  have nc: "\<not> is_ws c" "c \<noteq> CHR 0x22" "c \<noteq> CHR ''[''" "c \<noteq> CHR ''{''" "c \<noteq> CHR ''t''"
    "c \<noteq> CHR ''f''" "c \<noteq> CHR ''n''"
    using c(2) by (auto simp: is_digit_def is_ws_def)
  have pv: "parse_value (Suc m) (c # (cs @ rest)) = parse_number (c # (cs @ rest))"
    using nc by (simp add: skip_ws_def)
  have pn: "parse_number (c # (cs @ rest)) = Inr (Num i, rest)"
    using parse_number_to_string [OF e, of i] by (simp add: c(1))
  have s: "ser (Num i) @ rest = c # (cs @ rest)" by (simp add: ser_def c(1))
  show "parse_value n (ser (Num i) @ rest) = Inr (Num i, rest)"
    unfolding s n pv pn by (rule refl)
qed

lemma parse_elements_roundtrip:
  assumes "\<And>x. x \<in> set xs \<Longrightarrow> roundtrips x \<and> starts_value (ser x)"
    and "xs \<noteq> []" and "size (Arr xs) \<le> n"
  shows "parse_elements n (join (map ser xs) @ CHR '']'' # rest) = Inr (xs, rest)"
  using assms
proof (induction xs arbitrary: n)
  case Nil
  then show ?case by simp
next
  case (Cons x xs)
  from Cons.prems(3) obtain m where n: "n = Suc m" and m: "size x + size (Arr xs) \<le> m"
    by (cases n) auto
  have sx: "size x < m" using m by simp
  have rx: "roundtrips x" using Cons.prems(1) by simp
  show ?case
  proof (cases "xs = []")
    case True
    have "parse_value m (ser x @ CHR '']'' # rest) = Inr (x, CHR '']'' # rest)"
      using rx sx by (simp add: roundtrips_def ends_number_delimiter)
    then show ?thesis by (simp add: True n skip_ws_delimiter)
  next
    case False
    have ih: "parse_elements m (join (map ser xs) @ CHR '']'' # rest) = Inr (xs, rest)"
      using Cons.IH [of m] Cons.prems(1) False m by simp
    have j: "join (map ser (x # xs)) @ CHR '']'' # rest
             = ser x @ CHR '','' # join (map ser xs) @ CHR '']'' # rest"
      using False by (simp add: join_Cons)
    have "parse_value m (ser x @ CHR '','' # join (map ser xs) @ CHR '']'' # rest)
          = Inr (x, CHR '','' # join (map ser xs) @ CHR '']'' # rest)"
      using rx sx by (simp add: roundtrips_def ends_number_delimiter)
    then show ?thesis
      unfolding j n by (simp add: skip_ws_delimiter ih)
  qed
qed

lemma roundtrips_Arr:
  assumes "\<And>x. x \<in> set xs \<Longrightarrow> roundtrips x \<and> starts_value (ser x)"
  shows "roundtrips (Arr xs)"
  unfolding roundtrips_def
proof (intro allI impI)
  fix n rest assume sz: "size (Arr xs) < n"
  then obtain m where n: "n = Suc m" and m: "size (Arr xs) \<le> m" by (cases n) auto
  have "ser (Arr xs) = ''['' @ join (map ser xs) @ '']''"
    unfolding ser_def [of "Arr xs"] stringify_Arr by simp
  then have s: "ser (Arr xs) @ rest = CHR ''['' # join (map ser xs) @ CHR '']'' # rest"
    by simp
  show "parse_value n (ser (Arr xs) @ rest) = Inr (Arr xs, rest)"
  proof (cases "xs = []")
    case True
    show ?thesis unfolding s n by (simp add: True skip_ws_def is_ws_def)
  next
    case False
    then obtain x xs' where x: "xs = x # xs'" by (cases xs) auto
    have "starts_value (ser x)" using assms x by simp
    then obtain c cs where c: "ser x = c # cs" "\<not> is_ws c" "c \<noteq> CHR '']''"
      by (cases "ser x") (auto simp: starts_value_def)
    have "join (map ser xs) @ CHR '']'' # rest
          = c # cs @ (if xs' = [] then CHR '']'' # rest
                      else CHR '','' # join (map ser xs') @ CHR '']'' # rest)"
      unfolding x by (simp add: join_Cons c(1))
    then obtain t where t: "join (map ser xs) @ CHR '']'' # rest = c # t" by blast
    have k: "skip_ws (c # t) = c # t" using c(2) by (simp add: skip_ws_def)
    have e: "parse_elements m (c # t) = Inr (xs, rest)"
      using parse_elements_roundtrip [OF assms False m, of rest] by (simp add: t)
    have o: "skip_ws (CHR ''['' # c # t) = CHR ''['' # c # t"
      by (simp add: skip_ws_def is_ws_def)
    show ?thesis
      unfolding s n t using c(3) by (simp add: o k e)
  qed
qed

lemma ser_Obj:
  assumes "\<forall>kv \<in> set kvs. is_json (snd kv)"
  shows "ser (Obj kvs) = ''{'' @ join (map ser_member kvs) @ ''}''"
proof -
  have "(\<lambda>(k, v). json_quote k @ '':'' @ ser v) = ser_member"
    by (auto simp: ser_member_def)
  then show ?thesis
    unfolding ser_def [of "Obj kvs"] stringify_Obj [OF assms] by simp
qed

lemma update_fresh: "k \<notin> fst ` set al \<Longrightarrow> AList.update k v al = al @ [(k, v)]"
  by (induction al) auto

lemma foldl_update_distinct:
  "distinct (map fst (acc @ kvs)) \<Longrightarrow>
   foldl (\<lambda>obj (k, v). AList.update k v obj) acc kvs = acc @ kvs"
proof (induction kvs arbitrary: acc)
  case Nil
  show ?case by simp
next
  case (Cons kv kvs)
  obtain k v where kv: "kv = (k, v)" by (cases kv)
  have f: "k \<notin> fst ` set acc" using Cons.prems by (auto simp: kv)
  have d: "distinct (map fst ((acc @ [(k, v)]) @ kvs))" using Cons.prems by (simp add: kv)
  show ?case
    using Cons.IH [OF d] by (simp add: kv update_fresh [OF f])
qed

lemma object_of_members_distinct:
  "distinct (map fst kvs) \<Longrightarrow> object_of_members kvs = Obj kvs"
  using foldl_update_distinct [of "[]" kvs] by (simp add: object_of_members_def)

lemma parse_members_roundtrip:
  assumes "\<And>kv. kv \<in> set kvs \<Longrightarrow> roundtrips (snd kv)"
    and "kvs \<noteq> []" and "size (Obj kvs) \<le> n"
  shows "parse_members n (join (map ser_member kvs) @ CHR ''}'' # rest) = Inr (kvs, rest)"
  using assms
proof (induction kvs arbitrary: n)
  case Nil
  then show ?case by simp
next
  case (Cons kv kvs)
  obtain k v where kv: "kv = (k, v)" by (cases kv)
  from Cons.prems(3) obtain m where n: "n = Suc m" and m: "size v + size (Obj kvs) < m"
    by (cases n) (auto simp: kv)
  have sv: "size v < m" using m by simp
  have rv: "roundtrips v" using Cons.prems(1) [of kv] by (simp add: kv)
  define cont where "cont = (if kvs = [] then CHR ''}'' # rest
                             else CHR '','' # join (map ser_member kvs) @ CHR ''}'' # rest)"
  have j: "join (map ser_member (kv # kvs)) @ CHR ''}'' # rest
           = CHR 0x22 # (concat (map json_escape k) @ CHR 0x22 # (CHR '':'' # (ser v @ cont)))"
    by (simp add: join_Cons cont_def ser_member_def kv json_quote_def)
  have ps: "parse_string (concat (map json_escape k) @ CHR 0x22 # (CHR '':'' # (ser v @ cont)))
            = Inr (k, CHR '':'' # (ser v @ cont))"
    by (rule parse_string_quote)
  have e: "ends_number cont" by (simp add: cont_def ends_number_delimiter)
  have pv: "parse_value m (ser v @ cont) = Inr (v, cont)"
    using rv sv e by (simp add: roundtrips_def)
  have tail: "(case skip_ws cont of
                 [] \<Rightarrow> Inl SyntaxError
               | c # cs \<Rightarrow>
                   if c = CHR '','' then
                     (case parse_members m cs of
                        Inl err \<Rightarrow> Inl err
                      | Inr (ms, rest) \<Rightarrow> Inr ((k, v) # ms, rest))
                   else if c = CHR ''}'' then Inr ([(k, v)], cs)
                   else Inl SyntaxError) = Inr ((k, v) # kvs, rest)"
  proof (cases "kvs = []")
    case True
    then show ?thesis by (simp add: cont_def skip_ws_delimiter)
  next
    case False
    have "parse_members m (join (map ser_member kvs) @ CHR ''}'' # rest) = Inr (kvs, rest)"
      using Cons.IH [of m] Cons.prems(1) False m by simp
    then show ?thesis using False by (simp add: cont_def skip_ws_delimiter)
  qed
  show ?case
    unfolding j n parse_members.simps skip_ws_delimiter list.case ps
    using pv tail by (simp add: kv skip_ws_delimiter)
qed

lemma roundtrips_Obj:
  assumes "\<And>kv. kv \<in> set kvs \<Longrightarrow> roundtrips (snd kv)"
    and "is_json (Obj kvs)"
  shows "roundtrips (Obj kvs)"
  unfolding roundtrips_def
proof (intro allI impI)
  fix n rest assume sz: "size (Obj kvs) < n"
  then obtain m where n: "n = Suc m" and m: "size (Obj kvs) \<le> m" by (cases n) auto
  have js: "\<forall>kv \<in> set kvs. is_json (snd kv)" and d: "distinct (map fst kvs)"
    using assms(2) by (simp_all add: is_json_Obj)
  have s: "ser (Obj kvs) @ rest = CHR ''{'' # join (map ser_member kvs) @ CHR ''}'' # rest"
    by (simp add: ser_Obj [OF js])
  show "parse_value n (ser (Obj kvs) @ rest) = Inr (Obj kvs, rest)"
  proof (cases "kvs = []")
    case True
    show ?thesis unfolding s n by (simp add: True skip_ws_def is_ws_def)
  next
    case False
    then obtain kv kvs' where x: "kvs = kv # kvs'" by (cases kvs) auto
    have "join (map ser_member kvs) @ CHR ''}'' # rest
          = CHR 0x22 # (concat (map json_escape (fst kv)) @ CHR 0x22 # CHR '':'' # ser (snd kv)
              @ (if kvs' = [] then CHR ''}'' # rest
                 else CHR '','' # join (map ser_member kvs') @ CHR ''}'' # rest))"
      unfolding x by (simp add: join_Cons ser_member_def json_quote_def)
    then obtain t where t: "join (map ser_member kvs) @ CHR ''}'' # rest = CHR 0x22 # t" by blast
    have e: "parse_members m (CHR 0x22 # t) = Inr (kvs, rest)"
      using parse_members_roundtrip [OF assms(1) False m, of rest] by (simp add: t)
    have o: "skip_ws (CHR ''{'' # CHR 0x22 # t) = CHR ''{'' # CHR 0x22 # t"
      by (simp add: skip_ws_def is_ws_def)
    show ?thesis
      unfolding s n t
      by (simp add: o skip_ws_delimiter e object_of_members_distinct [OF d]
               del: parse_members.simps)
  qed
qed

theorem parse_value_stringify:
  "is_json v \<Longrightarrow> roundtrips v"
proof (induction v)
  case (Arr xs)
  have "roundtrips x \<and> starts_value (ser x)" if "x \<in> set xs" for x
    using that Arr by (simp add: is_json_Arr ser_starts)
  then show ?case by (rule roundtrips_Arr)
next
  case (Obj kvs)
  have "roundtrips (snd kv)" if "kv \<in> set kvs" for kv
  proof -
    obtain k v where kv: "kv = (k, v)" by (cases kv)
    have "is_json v" using Obj.prems that by (auto simp: is_json_Obj kv)
    moreover have "v \<in> Basic_BNFs.snds kv" by (simp add: kv)
    ultimately show ?thesis using Obj.IH [OF that] by (simp add: kv)
  qed
  then show ?case using Obj.prems by (rule roundtrips_Obj)
qed (simp_all add: roundtrips_Null roundtrips_Bool roundtrips_Num roundtrips_Str)

lemma size_Arr_le:
  "(\<And>x. x \<in> set xs \<Longrightarrow> size x < length (ser x)) \<Longrightarrow>
   size (Arr xs) \<le> length (join (map ser xs)) + 1"
proof (induction xs)
  case Nil
  show ?case by simp
next
  case (Cons x xs)
  have x: "size x < length (ser x)" using Cons.prems by simp
  have ih: "size (Arr xs) \<le> length (join (map ser xs)) + 1" using Cons by simp
  have s: "size (Arr (x # xs)) = size x + size (Arr xs) + 1" by simp
  show ?case
  proof (cases "xs = []")
    case True
    with x show ?thesis by simp
  next
    case False
    then obtain y ys where "xs = y # ys" by (cases xs) auto
    then have "length (join (map ser (x # xs))) = length (ser x) + 1 + length (join (map ser xs))"
      by simp
    with x ih s show ?thesis by linarith
  qed
qed

lemma size_Obj_le:
  "(\<And>kv. kv \<in> set kvs \<Longrightarrow> size (snd kv) < length (ser (snd kv))) \<Longrightarrow>
   size (Obj kvs) \<le> length (join (map ser_member kvs)) + 1"
proof (induction kvs)
  case Nil
  show ?case by simp
next
  case (Cons kv kvs)
  obtain k v where kv: "kv = (k, v)" by (cases kv)
  have x: "size v < length (ser v)" using Cons.prems [of kv] by (simp add: kv)
  have ih: "size (Obj kvs) \<le> length (join (map ser_member kvs)) + 1" using Cons by simp
  have s: "size (Obj (kv # kvs)) = size v + size (Obj kvs) + 2" by (simp add: kv)
  have m: "length (ser_member kv) = length (ser v) + length k' + 3"
    if "k' = concat (map json_escape k)" for k'
    using that by (simp add: ser_member_def kv json_quote_def)
  then have m': "length (ser v) + 3 \<le> length (ser_member kv)" by simp
  show ?case
  proof (cases "kvs = []")
    case True
    with x m' s show ?thesis by simp
  next
    case False
    then obtain y ys where "kvs = y # ys" by (cases kvs) auto
    then have "length (join (map ser_member (kv # kvs)))
               = length (ser_member kv) + 1 + length (join (map ser_member kvs))"
      by simp
    with x ih s m' show ?thesis by linarith
  qed
qed

lemma size_less_length_ser: "is_json v \<Longrightarrow> size v < length (ser v)"
proof (induction v)
  case (Num i)
  show ?case using digits_nonempty [of "nat i"] digits_nonempty [of "nat (- i)"]
    by (simp add: ser_def number_to_string_def)
next
  case (Arr xs)
  have "size x < length (ser x)" if "x \<in> set xs" for x using that Arr by simp
  then have "size (Arr xs) \<le> length (join (map ser xs)) + 1" by (rule size_Arr_le)
  moreover have "ser (Arr xs) = ''['' @ join (map ser xs) @ '']''"
    unfolding ser_def [of "Arr xs"] stringify_Arr by simp
  ultimately show ?case by simp
next
  case (Obj kvs)
  have js: "\<forall>kv \<in> set kvs. is_json (snd kv)" using Obj.prems by simp
  have "size (snd kv) < length (ser (snd kv))" if "kv \<in> set kvs" for kv
  proof -
    obtain k v where kv: "kv = (k, v)" by (cases kv)
    have "is_json v" using js that by (auto simp: kv)
    moreover have "v \<in> Basic_BNFs.snds kv" by (simp add: kv)
    ultimately show ?thesis using Obj.IH [OF that] by (simp add: kv)
  qed
  then have "size (Obj kvs) \<le> length (join (map ser_member kvs)) + 1" by (rule size_Obj_le)
  then show ?case by (simp add: ser_Obj [OF js])
qed (simp_all add: ser_def json_quote_def)

theorem JSON_parse_stringify:
  assumes "is_json v"
  shows "\<exists>t. JSON_stringify v = Some t \<and> JSON_parse t = Inr v"
proof -
  have "roundtrips v" using assms by (rule parse_value_stringify)
  then have "parse_value (length (ser v)) (ser v @ []) = Inr (v, [])"
    unfolding roundtrips_def
    using size_less_length_ser [OF assms] ends_number_delimiter(1) by blast
  then have "JSON_parse (ser v) = Inr v" by (simp add: JSON_parse_def skip_ws_def)
  with is_json_stringify [OF assms] show ?thesis by blast
qed

lemma query_value_append:
  "CHR ''='' \<notin> set q \<Longrightarrow> query_value (pre @ CHR ''='' # q) = q"
proof -
  assume "CHR ''='' \<notin> set q"
  then have "takeWhile (\<lambda>c. c \<noteq> CHR ''='') (rev q @ CHR ''='' # rev pre) = rev q"
    by (subst takeWhile_append2) auto
  then show ?thesis by (simp add: query_value_def)
qed

lemma example_uri_built:
  "createCredentialOfferURIFromObject example_uri_offer \<lparr>opts_scheme = None, opts_baseUri = None\<rparr>
   = Inr example_uri"
  by code_simp

text \<open>
  Claim C8.  When \<open>createCredentialOfferURIFromObject\<close> returns a URI for an offer without
  a \<open>credential_offer_uri\<close>, and the payload is a JSON value, the URI is
  \<open>scheme://baseUri?credential_offer=\<close> followed by the value of the query parameter, and
  decoding that value and parsing it as JSON gives the payload back.
\<close>

theorem createCredentialOfferURIFromObject_round_trip:
  assumes "createCredentialOfferURIFromObject co opts = Inr uri"
    and "\<not> truthy_str (offer_credential_offer_uri co)"
    and "is_json (offer_credential_offer co)"
  shows "uri = uriScheme co opts @ ''://'' @ uriBaseUri co opts
               @ ''?credential_offer='' @ query_value uri
    \<and> decodeCredentialOffer uri = Inr (offer_credential_offer co)"
proof -
  from JSON_parse_stringify [OF assms(3)] obtain t where
    t: "JSON_stringify (offer_credential_offer co) = Some t"
    and p: "JSON_parse t = Inr (offer_credential_offer co)" by blast
  let ?pre = "uriScheme co opts @ ''://'' @ uriBaseUri co opts
              @ ''?credential_offer''"
  have u: "uri = ?pre @ CHR ''='' # encodeURIComponent t"
    using assms(1,2)
    by (auto simp: createCredentialOfferURIFromObject_def Let_def t
             split: if_splits option.splits)
  have q: "query_value uri = encodeURIComponent t"
    unfolding u using encodeURIComponent_no_equals [of t] by (rule query_value_append)
  have "decodeCredentialOffer uri = Inr (offer_credential_offer co)"
    by (simp add: decodeCredentialOffer_def q decode_encodeURIComponent p)
  moreover have "uri = uriScheme co opts @ ''://'' @ uriBaseUri co opts
               @ ''?credential_offer='' @ query_value uri"
    unfolding q using u by simp
  ultimately show ?thesis by blast
qed

text \<open>The theorem at an offer with a pre-authorized-code grant and a transaction code.\<close>

theorem createCredentialOfferURIFromObject_round_trip_witness:
  "createCredentialOfferURIFromObject example_uri_offer \<lparr>opts_scheme = None, opts_baseUri = None\<rparr>
     = Inr example_uri
   \<and> is_json example_offer_payload
   \<and> decodeCredentialOffer example_uri = Inr example_offer_payload"
proof -
  have j: "is_json (offer_credential_offer example_uri_offer)"
    by (simp add: example_uri_offer_def example_offer_payload_def)
  have u: "\<not> truthy_str (offer_credential_offer_uri example_uri_offer)"
    by (simp add: example_uri_offer_def)
  have p: "offer_credential_offer example_uri_offer = example_offer_payload"
    by (simp add: example_uri_offer_def)
  from createCredentialOfferURIFromObject_round_trip [OF example_uri_built u j]
  have "decodeCredentialOffer example_uri = Inr example_offer_payload"
    unfolding p by (rule conjunct2)
  with example_uri_built j show ?thesis unfolding p by (intro conjI)
qed

end
